theory Spec2Isabelle
  imports Complex_Main
begin

section \<open>Errors and Python indexing\<close>

text \<open>
  The program of \<^verbatim>\<open>banks_project.py\<close> catches no exception: whatever a stage raises ends
  the run. Each exception class the stages can raise is a constructor here, and a stage that
  can raise returns \<open>error + 'a\<close> with the exception on the left.
\<close>

datatype error =
    RequestError
  | IndexError
  | KeyError
  | AttributeError
  | TypeError
  | ValueError
  | InvalidIndexError
  | OSError
  | DatabaseError

definition and_then :: "error + 'a \<Rightarrow> ('a \<Rightarrow> error + 'b) \<Rightarrow> error + 'b" where
  "and_then m f = (case m of Inl e \<Rightarrow> Inl e | Inr x \<Rightarrow> f x)"

text \<open>\<^verbatim>\<open>xs[i]\<close> for a literal index \<open>i \<ge> 0\<close>: out of range raises IndexError.\<close>

definition py_index :: "'a list \<Rightarrow> nat \<Rightarrow> error + 'a" where
  "py_index xs i = (if i < length xs then Inr (xs ! i) else Inl IndexError)"

fun try_map :: "('a \<Rightarrow> error + 'b) \<Rightarrow> 'a list \<Rightarrow> error + 'b list" where
  "try_map f [] = Inr []"
| "try_map f (x # xs) =
     (case f x of
        Inl e \<Rightarrow> Inl e
      | Inr y \<Rightarrow> (case try_map f xs of Inl e \<Rightarrow> Inl e | Inr ys \<Rightarrow> Inr (y # ys)))"

section \<open>The parsed page\<close>

text \<open>
  What \<^verbatim>\<open>BeautifulSoup(page, 'html.parser')\<close> hands to the program: a tree of elements and
  strings. \<open>Tag name children\<close> is an element, \<open>Text s\<close> a NavigableString. The program reads
  no attribute of an element, so none is kept.
\<close>

datatype node = Text string | Tag string "node list"

fun descendants :: "node \<Rightarrow> node list" where
  "descendants (Text s) = []"
| "descendants (Tag n cs) = concat (map (\<lambda>c. c # descendants c) cs)"

fun is_tag :: "string \<Rightarrow> node \<Rightarrow> bool" where
  "is_tag name (Tag n cs) = (n = name)"
| "is_tag name (Text s) = False"

text \<open>\<^verbatim>\<open>x.find_all(name)\<close>: every element below \<open>x\<close> with that name, in document order.\<close>

definition find_all :: "string \<Rightarrow> node \<Rightarrow> node list" where
  "find_all name x = filter (is_tag name) (descendants x)"

text \<open>\<^verbatim>\<open>x.contents\<close> of an element: its children.\<close>

fun contents :: "node \<Rightarrow> node list" where
  "contents (Tag n cs) = cs"
| "contents (Text s) = []"

section \<open>Data frames and the host libraries\<close>

text \<open>
  A cell of a frame is a string or a floating-point number (a number that pandas reads as
  an integer stands here as the float of the same value). A frame is its columns in
  order, each a label with its values (pandas stores frames by column); the row index is
  always \<open>0, 1, ...\<close> here, since every frame of the program is built with
  \<^verbatim>\<open>ignore_index=True\<close> or read without an index.

  The floating-point type \<open>'f\<close> and what the libraries compute on it are parameters of the
  model (\<open>host\<close>): the program only calls them.
  \<^item> \<open>float_of_str\<close>: the builtin \<^verbatim>\<open>float\<close> on a string, \<open>None\<close> where it raises ValueError;
  \<^item> \<open>fmul\<close>: the product of two floats; \<open>round2\<close>: \<^verbatim>\<open>np.round(x, 2)\<close>; \<open>nan\<close>: the value
    pandas puts in a missing cell;
  \<^item> \<open>obj_cells\<close>: the two cells of \<^verbatim>\<open>pd.DataFrame(data_dict, index=[0])\<close> when a value of
    the dict is an element and not a string (pandas reads an element as a sequence of its
    children), or the exception it raises; the frame has the keys of the dict as its
    columns and one row in either case;
  \<^item> \<open>sql_avg\<close>: SQLite's \<^verbatim>\<open>AVG\<close> over the stored values of a column;
  \<^item> \<open>float_text\<close>: the text \<^verbatim>\<open>to_csv\<close> writes for a float;
  \<^item> \<open>csv_quoted\<close>: whether the csv writer puts a field in quotes (with \<^verbatim>\<open>QUOTE_MINIMAL\<close>: a
    field with a comma, a quote or a character of the line terminator); \<open>line_end\<close>: the
    line terminator, \<^verbatim>\<open>os.linesep\<close>;
  \<^item> \<open>gz_flags\<close>, \<open>gz_rest\<close>: of the gzip member that \<^verbatim>\<open>gzip.GzipFile\<close> writes for a path and a
    text, the flag byte and all that follows the modification time (extra flags, system,
    file name, the deflated text, checksum and length);
  \<^item> \<open>archive\<close>: the bytes written under one of the other compressions, which may depend
    on the time of the write.
\<close>

datatype compression = Gzip | Bz2 | Zip | Xz | Zstd | Tar

datatype 'f cell = Str string | Num 'f

type_synonym 'f frame = "(string \<times> 'f cell list) list"

record 'f host =
  float_of_str :: "string \<Rightarrow> 'f option"
  fmul :: "'f \<Rightarrow> 'f \<Rightarrow> 'f"
  round2 :: "'f \<Rightarrow> 'f"
  nan :: "'f"
  obj_cells :: "node \<Rightarrow> node \<Rightarrow> error + ('f cell \<times> 'f cell)"
  sql_avg :: "'f cell list \<Rightarrow> 'f cell"
  float_text :: "'f \<Rightarrow> string"
  csv_quoted :: "string \<Rightarrow> bool"
  line_end :: string
  gz_flags :: "string \<Rightarrow> char"
  gz_rest :: "string \<Rightarrow> string \<Rightarrow> string"
  archive :: "compression \<Rightarrow> nat \<Rightarrow> string \<Rightarrow> string \<Rightarrow> string"

definition columns :: "'f frame \<Rightarrow> string list" where
  "columns df = map fst df"

definition nrows :: "'f frame \<Rightarrow> nat" where
  "nrows df = (case df of [] \<Rightarrow> 0 | (c, vs) # rest \<Rightarrow> length vs)"

text \<open>\<^verbatim>\<open>pd.DataFrame(columns=names)\<close>: the given labels, no row.\<close>

definition empty_frame :: "string list \<Rightarrow> 'f frame" where
  "empty_frame names = map (\<lambda>c. (c, [])) names"

text \<open>
  The values of the column labelled \<open>c\<close>, padded with \<open>nan\<close> when the frame has no such
  column: how \<^verbatim>\<open>pd.concat\<close> reindexes a frame to the union of the labels.
\<close>

definition column_or_nan :: "'f host \<Rightarrow> 'f frame \<Rightarrow> string \<Rightarrow> 'f cell list" where
  "column_or_nan H df c =
     (case map_of df c of
        Some vs \<Rightarrow> vs
      | None \<Rightarrow> replicate (nrows df) (Num (nan H)))"

text \<open>
  \<^verbatim>\<open>pd.concat([df, df1], ignore_index=True)\<close>: the rows of \<open>df1\<close> after those of \<open>df\<close>. The
  columns are the labels of \<open>df\<close>, then those of \<open>df1\<close> that \<open>df\<close> lacks; a cell a frame has
  no column for is \<open>nan\<close>. Frames whose labels differ are reindexed, which pandas refuses
  (InvalidIndexError) when a frame repeats a label.
\<close>

definition concat_frames :: "'f host \<Rightarrow> 'f frame \<Rightarrow> 'f frame \<Rightarrow> error + 'f frame" where
  "concat_frames H df df1 =
     (if columns df = columns df1
      then Inr (map (\<lambda>((c, vs), (c1, ws)). (c, vs @ ws)) (zip df df1))
      else if distinct (columns df) \<and> distinct (columns df1)
      then Inr (map (\<lambda>c. (c, column_or_nan H df c @ column_or_nan H df1 c))
                  (columns df @ filter (\<lambda>c. c \<notin> set (columns df)) (columns df1)))
      else Inl InvalidIndexError)"

section \<open>extract\<close>

text \<open>
  What the run reads from outside: \<open>web url\<close> is the page \<^verbatim>\<open>requests.get(url).text\<close> returns,
  parsed, or the error of the request; \<open>read_csv path\<close> is \<^verbatim>\<open>pd.read_csv(path)\<close>.
\<close>

record 'f env =
  web :: "string \<Rightarrow> error + node"
  read_csv :: "string \<Rightarrow> error + 'f frame"

text \<open>
  Lines 62 to 65: the dict of one row, from its cells \<open>col\<close>. The test
  \<^verbatim>\<open>bank_name is not None\<close> is always true (\<^verbatim>\<open>find_all\<close> returns a list), so the dict is built
  for every row that gets here; its entries are evaluated in the order written.
\<close>

definition data_dict :: "node list \<Rightarrow> error + (node \<times> node)" where
  "data_dict col =
     and_then (py_index col 1) (\<lambda>name_cell.
     and_then (py_index (find_all ''a'' name_cell) 1) (\<lambda>anchor.
     and_then (py_index (contents anchor) 0) (\<lambda>name.
     and_then (py_index col 2) (\<lambda>metric_cell.
     and_then (py_index (contents metric_cell) 0) (\<lambda>metric.
     Inr (name, metric))))))"

text \<open>Line 66: the one-row frame of the dict, under the fixed keys of line 64 and 65.\<close>

definition dict_frame :: "'f host \<Rightarrow> node \<times> node \<Rightarrow> error + 'f frame" where
  "dict_frame H d =
     (case d of
        (Text name, Text metric) \<Rightarrow>
          Inr [(''Name'', [Str name]), (''MC_USD_Billion'', [Str metric])]
      | (name, metric) \<Rightarrow>
          and_then (obj_cells H name metric) (\<lambda>(x, y).
          Inr [(''Name'', [x]), (''MC_USD_Billion'', [y])]))"

text \<open>The body of the loop of line 59, for one \<^verbatim>\<open><tr>\<close>, and the loop.\<close>

definition extract_row :: "'f host \<Rightarrow> 'f frame \<Rightarrow> node \<Rightarrow> error + 'f frame" where
  "extract_row H df row =
     (let col = find_all ''td'' row in
      if length col \<noteq> 0
      then and_then (data_dict col) (\<lambda>d.
           and_then (dict_frame H d) (\<lambda>df1. concat_frames H df df1))
      else Inr df)"

fun extract_rows :: "'f host \<Rightarrow> 'f frame \<Rightarrow> node list \<Rightarrow> error + 'f frame" where
  "extract_rows H df [] = Inr df"
| "extract_rows H df (row # rows) =
     and_then (extract_row H df row) (\<lambda>df'. extract_rows H df' rows)"

text \<open>
  \<^verbatim>\<open>extract(url, table_attributes)\<close>, lines 53 to 69 (named \<open>extract_df\<close>: \<open>extract\<close> is a
  command of Isabelle).
\<close>

definition extract_df :: "'f host \<Rightarrow> 'f env \<Rightarrow> string \<Rightarrow> string list \<Rightarrow> error + 'f frame" where
  "extract_df H E url table_attributes =
     and_then (web E url) (\<lambda>data.
     and_then (py_index (find_all ''tbody'' data) 0) (\<lambda>table.
     extract_rows H (empty_frame table_attributes) (find_all ''tr'' table)))"

section \<open>transform\<close>

text \<open>\<^verbatim>\<open>s.split(sep)\<close> for a separator of one character: the pieces between its occurrences.\<close>

fun split_chr :: "char \<Rightarrow> string \<Rightarrow> string list" where
  "split_chr sep [] = [[]]"
| "split_chr sep (c # cs) =
     (if c = sep then [] # split_chr sep cs
      else (case split_chr sep cs of [] \<Rightarrow> [[c]] | p # ps \<Rightarrow> (c # p) # ps))"

definition py_float :: "'f host \<Rightarrow> string \<Rightarrow> error + 'f" where
  "py_float H s = (case float_of_str H s of None \<Rightarrow> Inl ValueError | Some v \<Rightarrow> Inr v)"

text \<open>
  Line 94, for one value \<open>x\<close> of the column:
  \<^verbatim>\<open>float(''.join((x.split('\n')[0]).split(',')))\<close>. A float has no \<^verbatim>\<open>split\<close>.
\<close>

definition clean_usd :: "'f host \<Rightarrow> 'f cell \<Rightarrow> error + 'f" where
  "clean_usd H x =
     (case x of
        Num v \<Rightarrow> Inl AttributeError
      | Str s \<Rightarrow>
          and_then (py_index (split_chr (CHR ''\<newline>'') s) 0) (\<lambda>first.
          py_float H (concat (split_chr (CHR '','') first))))"

text \<open>
  \<^verbatim>\<open>df[c]\<close> read as one column (\<^verbatim>\<open>.tolist()\<close>, or iterated): KeyError without the label; with
  the label repeated \<^verbatim>\<open>df[c]\<close> is a frame, which has no \<^verbatim>\<open>tolist\<close>.
\<close>

definition get_column :: "'f frame \<Rightarrow> string \<Rightarrow> error + 'f cell list" where
  "get_column df c =
     (case filter (\<lambda>(n, vs). n = c) df of
        [] \<Rightarrow> Inl KeyError
      | [(n, vs)] \<Rightarrow> Inr vs
      | _ \<Rightarrow> Inl AttributeError)"

text \<open>
  \<^verbatim>\<open>df[c] = vs\<close> for a list of numbers with one value per row. A new label is added as the
  last column. A label the frame has is overwritten where it stands; when the label is
  repeated, every column with that label gets the list, unless there are as many such
  columns as values: then pandas takes the list as one value per column
  (\<^verbatim>\<open>_setitem_array([key], value)\<close>), and the \<open>i\<close>-th column with the label holds value \<open>i\<close> in
  every row (\<open>spread_column\<close>).
\<close>

fun spread_column :: "string \<Rightarrow> 'f cell list \<Rightarrow> nat \<Rightarrow> 'f frame \<Rightarrow> 'f frame" where
  "spread_column c vs n [] = []"
| "spread_column c [] n ((l, old) # df) = (l, old) # spread_column c [] n df"
| "spread_column c (v # vs) n ((l, old) # df) =
     (if l = c then (l, replicate n v) # spread_column c vs n df
      else (l, old) # spread_column c (v # vs) n df)"

definition set_column :: "'f frame \<Rightarrow> string \<Rightarrow> 'f cell list \<Rightarrow> 'f frame" where
  "set_column df c vs =
     (let k = length (filter (\<lambda>l. l = c) (columns df)) in
      if k = 0 then df @ [(c, vs)]
      else if 1 < k \<and> k = length vs then spread_column c vs (nrows df) df
      else map (\<lambda>(l, old). if l = c then (l, vs) else (l, old)) df)"

text \<open>
  Line 90: \<^verbatim>\<open>currency_exchange.set_index('Currency').to_dict()['Rate']\<close>, the dict from the
  values of column Currency to those of column Rate; a later row overrides an earlier one
  with the same currency. (\<^verbatim>\<open>read_csv\<close> never repeats a label.)
\<close>

definition currency_exchange_dict :: "'f frame \<Rightarrow> error + ('f cell \<rightharpoonup> 'f cell)" where
  "currency_exchange_dict currency_exchange =
     (case map_of currency_exchange ''Currency'' of
        None \<Rightarrow> Inl KeyError
      | Some currencies \<Rightarrow>
          (case map_of currency_exchange ''Rate'' of
             None \<Rightarrow> Inl KeyError
           | Some rates \<Rightarrow> Inr (map_of (rev (zip currencies rates)))))"

text \<open>
  \<^verbatim>\<open>np.round(x*currency_exchange_dict[code],2)\<close> for one value \<open>x\<close> of the USD column: the
  lookup raises KeyError, a float times a string TypeError.
\<close>

definition convert :: "'f host \<Rightarrow> ('f cell \<rightharpoonup> 'f cell) \<Rightarrow> string \<Rightarrow> 'f cell \<Rightarrow> error + 'f cell" where
  "convert H d code x =
     (case d (Str code) of
        None \<Rightarrow> Inl KeyError
      | Some rate \<Rightarrow>
          (case (x, rate) of
             (Num v, Num r) \<Rightarrow> Inr (Num (round2 H (fmul H v r)))
           | _ \<Rightarrow> Inl TypeError))"

text \<open>Lines 98, 101 and 104: one derived column, from the USD column as it stands.\<close>

definition add_currency :: "'f host \<Rightarrow> ('f cell \<rightharpoonup> 'f cell) \<Rightarrow> string \<Rightarrow> string \<Rightarrow> 'f frame \<Rightarrow> error + 'f frame" where
  "add_currency H d code label df =
     and_then (get_column df ''MC_USD_Billion'') (\<lambda>xs.
     and_then (try_map (convert H d code) xs) (\<lambda>vs.
     Inr (set_column df label vs)))"

definition transform :: "'f host \<Rightarrow> 'f env \<Rightarrow> 'f frame \<Rightarrow> string \<Rightarrow> error + 'f frame" where
  "transform H E df csv_path =
     and_then (read_csv E csv_path) (\<lambda>currency_exchange.
     and_then (currency_exchange_dict currency_exchange) (\<lambda>d.
     and_then (get_column df ''MC_USD_Billion'') (\<lambda>usd.
     and_then (try_map (clean_usd H) usd) (\<lambda>usd_billion.
     and_then (add_currency H d ''GBP'' ''MC_GBP_Billion''
                 (set_column df ''MC_USD_Billion'' (map Num usd_billion))) (\<lambda>df1.
     and_then (add_currency H d ''EUR'' ''MC_EUR_Billion'' df1) (\<lambda>df2.
     add_currency H d ''INR'' ''MC_INR_Billion'' df2))))))"

section \<open>The sinks, the log and the driver\<close>

text \<open>
  What a run changes: the text of \<^verbatim>\<open>code_log.txt\<close>, the files written, the databases (each a
  map from table names to tables, a table being a frame), and what was printed.
  \<open>writable\<close> says which paths the process can open for writing, and \<open>epoch\<close> is the
  system time in seconds, \<^verbatim>\<open>int(time.time())\<close>, which no stage changes.
\<close>

datatype 'f printed = PFrame "'f frame" | PText string

record 'f world =
  log_file :: string
  files :: "string \<rightharpoonup> string"
  writable :: "string \<Rightarrow> bool"
  databases :: "string \<rightharpoonup> (string \<rightharpoonup> 'f frame)"
  stdout :: "'f printed list"
  epoch :: nat

definition print :: "'f printed \<Rightarrow> 'f world \<Rightarrow> 'f world" where
  "print x W = W\<lparr>stdout := stdout W @ [x]\<rparr>"

text \<open>
  \<^verbatim>\<open>log_progress(message)\<close>, lines 23 to 27; \<open>timestamp\<close> is \<^verbatim>\<open>now.strftime(timestamp_format)\<close>,
  the local time of the call as text. The log file is taken to be open for appending at
  every call.
\<close>

definition log_progress :: "string \<Rightarrow> string \<Rightarrow> 'f world \<Rightarrow> 'f world" where
  "log_progress timestamp message W =
     W\<lparr>log_file := log_file W @ timestamp @ '' : '' @ message @ ''\<newline>''\<rparr>"

function string_of_nat :: "nat \<Rightarrow> string" where
  "string_of_nat n =
     (if n < 10 then [char_of (48 + n)]
      else string_of_nat (n div 10) @ [char_of (48 + n mod 10)])"
  by pat_completeness auto
termination
  by (relation "measure (\<lambda>n. n)") auto

definition cell_text :: "'f host \<Rightarrow> 'f cell \<Rightarrow> string" where
  "cell_text H x = (case x of Str s \<Rightarrow> s | Num v \<Rightarrow> float_text H v)"

text \<open>
  The records \<^verbatim>\<open>df.to_csv(path)\<close> hands to the csv writer with its defaults
  (\<^verbatim>\<open>header=True, index=True\<close>): the header, whose first field (the label of the index) is
  empty, then one record per row, whose first field is the index of the row.
\<close>

definition to_csv_records :: "'f host \<Rightarrow> 'f frame \<Rightarrow> string list list" where
  "to_csv_records H df =
     ([] # columns df) #
     map (\<lambda>i. string_of_nat i # map (\<lambda>(c, vs). cell_text H (vs ! i)) df) [0..<nrows df]"

text \<open>
  The csv writer (\<^verbatim>\<open>delimiter=','\<close>, \<^verbatim>\<open>quotechar='"'\<close>, \<^verbatim>\<open>doublequote=True\<close>): a field in quotes
  has its quotes doubled; the fields of a record are joined by commas and followed by the
  line terminator; a record of one empty field is written as two quotes. The text of the
  file is the records one after the other.
\<close>

definition csv_field :: "'f host \<Rightarrow> string \<Rightarrow> string" where
  "csv_field H s =
     (if csv_quoted H s
      then [CHR 0x22] @ concat (map (\<lambda>c. if c = CHR 0x22 then [c, c] else [c]) s) @ [CHR 0x22]
      else s)"

fun join_comma :: "string list \<Rightarrow> string" where
  "join_comma [] = []"
| "join_comma [x] = x"
| "join_comma (x # y # ys) = x @ '','' @ join_comma (y # ys)"

definition csv_record :: "'f host \<Rightarrow> string list \<Rightarrow> string" where
  "csv_record H fs =
     (if fs = [[]] then [CHR 0x22, CHR 0x22] else join_comma (map (csv_field H) fs)) @
     line_end H"

definition to_csv_text :: "'f host \<Rightarrow> 'f frame \<Rightarrow> string" where
  "to_csv_text H df = concat (map (csv_record H) (to_csv_records H df))"

text \<open>
  \<^verbatim>\<open>to_csv\<close> is called with its default \<^verbatim>\<open>compression='infer'\<close>: the compression is the one
  of the first extension of pandas' table that the path, in lower case, ends with (the
  table of pandas 1.5 and later; \<open>lower_chr\<close> is \<^verbatim>\<open>str.lower\<close> on ASCII).
\<close>

definition lower_chr :: "char \<Rightarrow> char" where
  "lower_chr c =
     (if (65::nat) \<le> of_char c \<and> (of_char c :: nat) \<le> 90 then char_of (of_char c + (32::nat))
      else c)"

definition ends_with :: "string \<Rightarrow> string \<Rightarrow> bool" where
  "ends_with s x = (take (length x) (rev s) = rev x)"

definition infer_compression :: "string \<Rightarrow> compression option" where
  "infer_compression p =
     (let q = map lower_chr p in
      if ends_with q ''.tar'' \<or> ends_with q ''.tar.gz'' \<or> ends_with q ''.tar.bz2'' \<or>
         ends_with q ''.tar.xz'' then Some Tar
      else if ends_with q ''.gz'' then Some Gzip
      else if ends_with q ''.bz2'' then Some Bz2
      else if ends_with q ''.zip'' then Some Zip
      else if ends_with q ''.xz'' then Some Xz
      else if ends_with q ''.zst'' then Some Zstd
      else None)"

text \<open>
  The bytes written for the text \<open>s\<close> at the path \<open>p\<close> at the time \<open>t\<close>. Without compression
  they are the text. Under gzip, pandas opens \<^verbatim>\<open>gzip.GzipFile(filename=p, mode='wb')\<close>, which
  writes the magic number \<^verbatim>\<open>1f 8b\<close>, the method \<^verbatim>\<open>08\<close>, the flags, the modification time as
  four bytes, least significant first, and the rest; no \<^verbatim>\<open>mtime\<close> being given, the
  modification time is \<^verbatim>\<open>int(time.time())\<close>.
\<close>

definition le32 :: "nat \<Rightarrow> string" where
  "le32 n = [char_of n, char_of (n div 256), char_of (n div 65536), char_of (n div 16777216)]"

definition to_csv_bytes :: "'f host \<Rightarrow> nat \<Rightarrow> string \<Rightarrow> string \<Rightarrow> string" where
  "to_csv_bytes H t p s =
     (case infer_compression p of
        None \<Rightarrow> s
      | Some Gzip \<Rightarrow> [CHR 0x1F, CHR 0x8B, CHR 0x08, gz_flags H p] @ le32 t @ gz_rest H p s
      | Some m \<Rightarrow> archive H m t p s)"

text \<open>
  \<^verbatim>\<open>load_to_csv(df, output_path)\<close>: the file is opened for writing, which truncates it, and
  gets the bytes of the text of the frame.
\<close>

definition load_to_csv :: "'f host \<Rightarrow> 'f frame \<Rightarrow> string \<Rightarrow> 'f world \<Rightarrow> error option \<times> 'f world" where
  "load_to_csv H df output_path W =
     (if writable W output_path
      then (None, W\<lparr>files := (files W)(output_path \<mapsto>
                    to_csv_bytes H (epoch W) output_path (to_csv_text H df))\<rparr>)
      else (Some OSError, W))"

text \<open>
  \<^verbatim>\<open>sqlite3.connect(db_name)\<close>: opens the database file, creating an empty database when
  there is none. The connection is named by its database.
\<close>

definition connect :: "string \<Rightarrow> 'f world \<Rightarrow> error option \<times> 'f world" where
  "connect db_name W =
     (if writable W db_name
      then (None,
            (case databases W db_name of
               None \<Rightarrow> W\<lparr>databases := (databases W)(db_name \<mapsto> Map.empty)\<rparr>
             | Some db \<Rightarrow> W))
      else (Some DatabaseError, W))"

text \<open>
  \<^verbatim>\<open>df.to_sql(table_name, sql_connection, if_exists='append', index=False)\<close> on the table
  as it is (\<open>None\<close>: no such table). Without the table, it is created with the columns of
  the frame and gets its rows. With the table, the rows are inserted by label after the rows
  it has, a column of the table the frame lacks getting NULL (\<open>nan\<close> when read back); a
  label the table lacks is an error of the database, and a frame without rows inserts
  nothing. A frame that repeats a label is taken to be refused. Values are kept as given:
  the conversions of SQLite's column affinities are not modelled.
\<close>

definition to_sql_append :: "'f host \<Rightarrow> 'f frame \<Rightarrow> 'f frame option \<Rightarrow> error + 'f frame" where
  "to_sql_append H df existing =
     (case existing of
        None \<Rightarrow> if df \<noteq> [] \<and> distinct (columns df) then Inr df else Inl DatabaseError
      | Some t \<Rightarrow>
          if nrows df = 0 then Inr t
          else if distinct (columns df) \<and> list_all (\<lambda>c. c \<in> set (columns t)) (columns df)
          then Inr (map (\<lambda>(c, vs). (c, vs @ column_or_nan H df c)) t)
          else Inl DatabaseError)"

definition load_to_db :: "'f host \<Rightarrow> 'f frame \<Rightarrow> string \<Rightarrow> string \<Rightarrow> 'f world \<Rightarrow> error option \<times> 'f world" where
  "load_to_db H df sql_connection table_name W =
     (case databases W sql_connection of
        None \<Rightarrow> (Some DatabaseError, W)
      | Some db \<Rightarrow>
          (case to_sql_append H df (db table_name) of
             Inl e \<Rightarrow> (Some e, W)
           | Inr t \<Rightarrow>
               (None, W\<lparr>databases := (databases W)(sql_connection \<mapsto> db(table_name \<mapsto> t))\<rparr>)))"

text \<open>
  The one statement the program runs, \<^verbatim>\<open>SELECT AVG(column) FROM table\<close>, and its text.
\<close>

datatype query = SelectAvg string string

fun query_text :: "query \<Rightarrow> string" where
  "query_text (SelectAvg c t) = ''SELECT AVG('' @ c @ '') FROM '' @ t"

text \<open>
  \<^verbatim>\<open>pd.read_sql(query_statement, sql_connection)\<close>: a frame of one column, labelled by the
  aggregate, and one row; without the table or the column, the statement fails.
\<close>

fun read_sql :: "'f host \<Rightarrow> query \<Rightarrow> (string \<rightharpoonup> 'f frame) \<Rightarrow> error + 'f frame" where
  "read_sql H (SelectAvg c t) db =
     (case db t of
        None \<Rightarrow> Inl DatabaseError
      | Some tab \<Rightarrow>
          (case map_of tab c of
             None \<Rightarrow> Inl DatabaseError
           | Some vs \<Rightarrow> Inr [(''AVG('' @ c @ '')'', [sql_avg H vs])]))"

text \<open>\<^verbatim>\<open>run_query(query_statement, sql_connection)\<close>, lines 163 to 165.\<close>

definition run_query :: "'f host \<Rightarrow> query \<Rightarrow> string \<Rightarrow> 'f world \<Rightarrow> error option \<times> 'f world" where
  "run_query H statement sql_connection W =
     (let W1 = print (PText (query_text statement)) W in
      case databases W1 sql_connection of
        None \<Rightarrow> (Some DatabaseError, W1)
      | Some db \<Rightarrow>
          (case read_sql H statement db of
             Inl e \<Rightarrow> (Some e, W1)
           | Inr query_output \<Rightarrow> (None, print (PFrame query_output) W1)))"

text \<open>
  The values the driver reads from \<^verbatim>\<open>env_variables.json\<close> (lines 169 to 177), and the
  driver, lines 179 to 209 (\<open>main\<close>, with \<open>main_load\<close> for its second half). \<open>config\<close> is
  what reading the file gives; \<open>now k\<close> is the timestamp of the \<open>k\<close>-th call of
  \<^verbatim>\<open>log_progress\<close>. The driver returns the exception that ended the run, or \<open>None\<close>, with
  the world as the run left it.
\<close>

record config =
  url :: string
  table_attributes :: "string list"
  csv_path :: string
  output_path :: string
  db_name :: string
  table_name :: string

definition query_statement :: query where
  "query_statement = SelectAvg ''MC_GBP_Billion'' ''Largest_banks''"

text \<open>The next statement runs unless an exception has ended the run.\<close>

definition then_run :: "error option \<times> 'f world \<Rightarrow> ('f world \<Rightarrow> error option \<times> 'f world) \<Rightarrow> error option \<times> 'f world" where
  "then_run r f = (case r of (Some e, W) \<Rightarrow> (Some e, W) | (None, W) \<Rightarrow> f W)"

text \<open>Lines 189 to 209: the driver once the frame is transformed.\<close>

definition main_load :: "'f host \<Rightarrow> (nat \<Rightarrow> string) \<Rightarrow> config \<Rightarrow> 'f frame \<Rightarrow> 'f world \<Rightarrow> error option \<times> 'f world" where
  "main_load H now data df W =
     then_run (load_to_csv H df (output_path data)
       (log_progress (now 2) ''Data transformation complete. Initiating loading process'' W))
     (\<lambda>W1. then_run (connect (db_name data)
       (log_progress (now 3) ''Data saved to CSV file'' W1))
     (\<lambda>W2. then_run (load_to_db H df (db_name data) (table_name data)
       (log_progress (now 4) ''SQL Connection initiated.'' W2))
     (\<lambda>W3. then_run (run_query H query_statement (db_name data)
       (log_progress (now 5) ''Data loaded to Database as table. Running the query'' W3))
     (\<lambda>W4. (None, log_progress (now 6) ''Process Complete.'' W4)))))"

definition main :: "'f host \<Rightarrow> 'f env \<Rightarrow> (nat \<Rightarrow> string) \<Rightarrow> error + config \<Rightarrow> 'f world \<Rightarrow> error option \<times> 'f world" where
  "main H E now config W =
     (case config of
        Inl e \<Rightarrow> (Some e, W)
      | Inr data \<Rightarrow>
          (let W1 = log_progress (now 0) ''Preliminaries complete. Initiating ETL process'' W in
           case extract_df H E (url data) (table_attributes data) of
             Inl e \<Rightarrow> (Some e, W1)
           | Inr df \<Rightarrow>
               (let W2 = log_progress (now 1)
                           ''Data extraction complete. Initiating Transformation process''
                           (print (PFrame df) W1) in
                case transform H E df (csv_path data) of
                  Inl e \<Rightarrow> (Some e, W2)
                | Inr df' \<Rightarrow> main_load H now data df' (print (PFrame df') W2))))"

text \<open>
  Line 209 closes the connection; every statement of \<open>load_to_db\<close> is committed by then, so
  the close changes nothing of the world.
\<close>

section \<open>A host and inputs to run the model on\<close>

text \<open>
  An instance of the host for concrete runs: exact decimal arithmetic in place of binary
  floating point, with \<open>None\<close> for nan. \<open>decimal\<close> reads a plain decimal literal (digits,
  with at most one point between digits), \<open>round_half_even\<close> rounds to the nearest integer,
  ties to even. Elements in place of strings are refused, AVG is the mean of the numbers
  of the column, a number is written with its decimals (up to three, at least one), a
  field is quoted when it has a comma, a quote or a newline, and lines end with a newline.
  Compression is not carried out: the gzip member names its file in the flags and what
  follows the modification time is the text as it is, as is an archive of another kind.
\<close>

definition digit_val :: "char \<Rightarrow> nat option" where
  "digit_val c =
     (if (48::nat) \<le> of_char c \<and> (of_char c :: nat) \<le> 57 then Some (of_char c - 48) else None)"

fun digits_val :: "nat \<Rightarrow> string \<Rightarrow> nat option" where
  "digits_val acc [] = Some acc"
| "digits_val acc (c # cs) =
     (case digit_val c of None \<Rightarrow> None | Some d \<Rightarrow> digits_val (10 * acc + d) cs)"

definition decimal :: "string \<Rightarrow> rat option" where
  "decimal s =
     (let whole = takeWhile (\<lambda>c. c \<noteq> CHR ''.'') s;
          rest = dropWhile (\<lambda>c. c \<noteq> CHR ''.'') s
      in if whole = [] then None
         else (case rest of
                 [] \<Rightarrow> map_option of_nat (digits_val 0 whole)
               | point # fd \<Rightarrow>
                   if fd = [] then None
                   else (case (digits_val 0 whole, digits_val 0 fd) of
                           (Some a, Some b) \<Rightarrow> Some (of_nat a + of_nat b / 10 ^ length fd)
                         | _ \<Rightarrow> None)))"

definition round_half_even :: "rat \<Rightarrow> int" where
  "round_half_even x =
     (let n = \<lfloor>x\<rfloor>; d = x - of_int n
      in if d < 1 / 2 then n else if 1 / 2 < d then n + 1 else if even n then n else n + 1)"

text \<open>The decimals of a number of thousandths \<open>m < 1000\<close>, without trailing zeros.\<close>

definition decimals :: "nat \<Rightarrow> string" where
  "decimals m =
     (if m mod 100 = 0 then string_of_nat (m div 100)
      else if m mod 10 = 0 then string_of_nat (m div 100) @ string_of_nat (m div 10 mod 10)
      else string_of_nat (m div 100) @ string_of_nat (m div 10 mod 10) @ string_of_nat (m mod 10))"

fun numbers_of :: "rat option cell list \<Rightarrow> rat list" where
  "numbers_of [] = []"
| "numbers_of (Num (Some x) # cs) = x # numbers_of cs"
| "numbers_of (c # cs) = numbers_of cs"

definition exact_host :: "rat option host" where
  "exact_host =
     \<lparr> float_of_str = (\<lambda>s. map_option Some (decimal s)),
       fmul = (\<lambda>a b. case (a, b) of (Some x, Some y) \<Rightarrow> Some (x * y) | _ \<Rightarrow> None),
       round2 = map_option (\<lambda>x. of_int (round_half_even (x * 100)) / 100),
       nan = None,
       obj_cells = (\<lambda>name metric. Inl ValueError),
       sql_avg = (\<lambda>cs. case numbers_of cs of
                          [] \<Rightarrow> Num None
                        | x # xs \<Rightarrow> Num (Some (sum_list (x # xs) / of_nat (length (x # xs))))),
       float_text = (\<lambda>v. case v of
                            None \<Rightarrow> []
                          | Some x \<Rightarrow> string_of_nat (nat \<lfloor>x\<rfloor>) @ ''.'' @
                                      decimals (nat (\<lfloor>x * 1000\<rfloor> mod 1000))),
       csv_quoted = list_ex (\<lambda>c. c = CHR '','' \<or> c = CHR 0x22 \<or> c = CHR ''\<newline>''),
       line_end = ''\<newline>'',
       gz_flags = (\<lambda>p. CHR 0x08),
       gz_rest = (\<lambda>p s. s),
       archive = (\<lambda>m t p s. s) \<rparr>"

text \<open>
  A page with one table: a header row without \<^verbatim>\<open><td>\<close>, then the row of the scenario of the
  specification, whose name cell links twice and whose metric is \<^verbatim>\<open>"100,000\n"\<close>.
\<close>

definition bank_row :: node where
  "bank_row =
     Tag ''tr''
       [Tag ''td'' [Text ''1''],
        Tag ''td'' [Tag ''a'' [Text ''flag''], Tag ''a'' [Text ''Bank A'']],
        Tag ''td'' [Text ''100,000\<newline>'']]"

definition bank_page :: node where
  "bank_page =
     Tag ''[document]''
       [Tag ''table''
          [Tag ''tbody''
             [Tag ''tr'' [Tag ''th'' [Text ''Rank''], Tag ''th'' [Text ''Bank name'']],
              bank_row]]]"

text \<open>The rates file of the scenario, as \<^verbatim>\<open>read_csv\<close> reads it.\<close>

definition rates :: "rat option frame" where
  "rates =
     [(''Currency'', [Str ''GBP'', Str ''EUR'', Str ''INR'']),
      (''Rate'', [Num (Some (4 / 5)), Num (Some (9 / 10)), Num (Some 80)])]"

definition env_of :: "node \<Rightarrow> rat option env" where
  "env_of page =
     \<lparr> web = (\<lambda>u. if u = ''http://banks.example'' then Inr page else Inl RequestError),
       read_csv = (\<lambda>p. if p = ''exchange_rate.csv'' then Inr rates else Inl OSError) \<rparr>"

definition bank_env :: "rat option env" where
  "bank_env = env_of bank_page"

text \<open>
  Two more pages: one whose second data row links its name once, one whose second data
  row has a single cell.
\<close>

definition one_anchor_row :: node where
  "one_anchor_row =
     Tag ''tr''
       [Tag ''td'' [Text ''2''],
        Tag ''td'' [Tag ''a'' [Text ''Bank B'']],
        Tag ''td'' [Text ''50,000\<newline>'']]"

definition one_anchor_page :: node where
  "one_anchor_page = Tag ''[document]'' [Tag ''tbody'' [bank_row, one_anchor_row]]"

definition short_row :: node where
  "short_row = Tag ''tr'' [Tag ''td'' [Text ''Source: annual reports'']]"

definition short_row_page :: node where
  "short_row_page = Tag ''[document]'' [Tag ''tbody'' [bank_row, short_row]]"

definition fresh_world :: "rat option world" where
  "fresh_world =
     \<lparr> log_file = [], files = Map.empty, writable = (\<lambda>p. True),
       databases = Map.empty, stdout = [], epoch = 1704067200 \<rparr>"

definition clock :: "nat \<Rightarrow> string" where
  "clock k = ''2024-Jan-01-00:00:0'' @ string_of_nat k"


text \<open>
  The cleaning in the words of the specification: of the raw metric, keep what stands
  before the first newline, and drop every comma of it.
\<close>

definition spec_cleaned :: "string \<Rightarrow> string" where
  "spec_cleaned x =
     filter (\<lambda>c. c \<noteq> CHR '','') (takeWhile (\<lambda>c. c \<noteq> CHR ''\<newline>'') x)"

text \<open>A frame whose second metric is not a number.\<close>

definition na_frame :: "rat option frame" where
  "na_frame =
     [(''Name'', [Str ''Bank A'', Str ''Bank B'']),
      (''MC_USD_Billion'', [Str ''1,234.5\<newline>footnote'', Str ''n/a''])]"

text \<open>
  A frame is well formed when its columns have one value per row (pandas keeps it so).
  \<open>converted H r vs\<close> is a derived column: \<^verbatim>\<open>np.round(x*r,2)\<close> for each cleaned value \<open>x\<close>.
\<close>

definition frame_ok :: "'f frame \<Rightarrow> bool" where
  "frame_ok df = list_all (\<lambda>(c, vs). length vs = nrows df) df"

definition converted :: "'f host \<Rightarrow> 'f \<Rightarrow> 'f list \<Rightarrow> 'f cell list" where
  "converted H r vs = map (\<lambda>v. Num (round2 H (fmul H v r))) vs"

text \<open>The frame \<open>extract\<close> builds from \<open>bank_page\<close> under the names Name and MC_USD_Billion.\<close>

definition bank_frame :: "rat option frame" where
  "bank_frame = [(''Name'', [Str ''Bank A'']), (''MC_USD_Billion'', [Str ''100,000\<newline>''])]"

text \<open>
  The transformed frame of the scenario, and a world where the output file already exists.
\<close>

definition bank_result :: "rat option frame" where
  "bank_result =
     [(''Name'', [Str ''Bank A'']),
      (''MC_USD_Billion'', [Num (Some 100000)]),
      (''MC_GBP_Billion'', [Num (Some 80000)]),
      (''MC_EUR_Billion'', [Num (Some 90000)]),
      (''MC_INR_Billion'', [Num (Some 8000000)])]"

definition used_world :: "rat option world" where
  "used_world = fresh_world\<lparr>files := [''Largest_banks_data.csv'' \<mapsto> ''stale'']\<rparr>"

text \<open>
  The table \<open>t\<close> of the database \<open>c\<close> in a world, and the number of its rows. Two worlds
  with the database of the scenario open: one where the table already holds the row of an
  earlier run, one where the database is empty.
\<close>

definition table_of :: "'f world \<Rightarrow> string \<Rightarrow> string \<Rightarrow> 'f frame option" where
  "table_of W c t = (case databases W c of None \<Rightarrow> None | Some db \<Rightarrow> db t)"

definition rows_in :: "'f world \<Rightarrow> string \<Rightarrow> string \<Rightarrow> nat" where
  "rows_in W c t = (case table_of W c t of None \<Rightarrow> 0 | Some tab \<Rightarrow> nrows tab)"

definition loaded_world :: "rat option world" where
  "loaded_world =
     fresh_world\<lparr>databases := [''Banks.db'' \<mapsto> [''Largest_banks'' \<mapsto> bank_result]]\<rparr>"

definition connected_world :: "rat option world" where
  "connected_world = fresh_world\<lparr>databases := [''Banks.db'' \<mapsto> Map.empty]\<rparr>"

text \<open>
  One line of the log, the seven lines a complete run writes, and the number of lines of a
  text. Two configurations for \<open>bank_env\<close>: the one of the scenario, and one that names
  another table.
\<close>

definition log_line :: "string \<Rightarrow> string \<Rightarrow> string" where
  "log_line timestamp message = timestamp @ '' : '' @ message @ ''\<newline>''"

definition milestone_lines :: "(nat \<Rightarrow> string) \<Rightarrow> string list" where
  "milestone_lines now =
     [log_line (now 0) ''Preliminaries complete. Initiating ETL process'',
      log_line (now 1) ''Data extraction complete. Initiating Transformation process'',
      log_line (now 2) ''Data transformation complete. Initiating loading process'',
      log_line (now 3) ''Data saved to CSV file'',
      log_line (now 4) ''SQL Connection initiated.'',
      log_line (now 5) ''Data loaded to Database as table. Running the query'',
      log_line (now 6) ''Process Complete.'']"

definition line_count :: "string \<Rightarrow> nat" where
  "line_count s = length (filter (\<lambda>c. c = CHR ''\<newline>'') s)"

definition bank_config :: config where
  "bank_config =
     \<lparr> url = ''http://banks.example'', table_attributes = [''Name'', ''MC_USD_Billion''],
       csv_path = ''exchange_rate.csv'', output_path = ''Largest_banks_data.csv'',
       db_name = ''Banks.db'', table_name = ''Largest_banks'' \<rparr>"

definition other_config :: config where
  "other_config = bank_config\<lparr>table_name := ''Banks''\<rparr>"

text \<open>
  A page with two data rows, whose metrics have decimals, the second with a thousands
  separator; the frame \<open>extract\<close> builds from it and the frame \<open>transform\<close> returns for
  that one with the rates of \<open>rates\<close>.
\<close>

definition jp_row :: node where
  "jp_row =
     Tag ''tr''
       [Tag ''td'' [Text ''1''],
        Tag ''td'' [Tag ''a'' [Text ''flag''], Tag ''a'' [Text ''JPMorgan Chase'']],
        Tag ''td'' [Text ''432.92\<newline>'']]"

definition boa_row :: node where
  "boa_row =
     Tag ''tr''
       [Tag ''td'' [Text ''2''],
        Tag ''td'' [Tag ''a'' [Text ''flag''], Tag ''a'' [Text ''Bank of America'']],
        Tag ''td'' [Text ''1,234.567\<newline>'']]"

definition banks_page :: node where
  "banks_page =
     Tag ''[document]''
       [Tag ''table''
          [Tag ''tbody''
             [Tag ''tr'' [Tag ''th'' [Text ''Rank''], Tag ''th'' [Text ''Bank name'']],
              jp_row, boa_row]]]"

definition banks_frame :: "rat option frame" where
  "banks_frame =
     [(''Name'', [Str ''JPMorgan Chase'', Str ''Bank of America'']),
      (''MC_USD_Billion'', [Str ''432.92\<newline>'', Str ''1,234.567\<newline>''])]"

definition banks_result :: "rat option frame" where
  "banks_result =
     [(''Name'', [Str ''JPMorgan Chase'', Str ''Bank of America'']),
      (''MC_USD_Billion'', [Num (Some (43292 / 100)), Num (Some (1234567 / 1000))]),
      (''MC_GBP_Billion'', [Num (Some (34634 / 100)), Num (Some (98765 / 100))]),
      (''MC_EUR_Billion'', [Num (Some (38963 / 100)), Num (Some (111111 / 100))]),
      (''MC_INR_Billion'', [Num (Some (346336 / 10)), Num (Some (9876536 / 100))])]"

text \<open>
  A frame whose first metric has a thousands separator and text after the newline.
\<close>

definition footnote_frame :: "rat option frame" where
  "footnote_frame =
     [(''Name'', [Str ''Bank A'', Str ''Bank B'']),
      (''MC_USD_Billion'', [Str ''1,234.5\<newline>footnote'', Str ''432.92\<newline>''])]"

text \<open>
  The frame \<open>extract\<close> builds from \<open>banks_page\<close> when \<^verbatim>\<open>table_attributes\<close> is
  \<^verbatim>\<open>['MC_GBP_Billion', 'Cap']\<close>, and the frame \<open>transform\<close> returns for it.
\<close>

definition capped_frame :: "rat option frame" where
  "capped_frame =
     [(''MC_GBP_Billion'', [Num None, Num None]),
      (''Cap'', [Num None, Num None]),
      (''Name'', [Str ''JPMorgan Chase'', Str ''Bank of America'']),
      (''MC_USD_Billion'', [Str ''432.92\<newline>'', Str ''1,234.567\<newline>''])]"

definition capped_result :: "rat option frame" where
  "capped_result =
     [(''MC_GBP_Billion'', [Num (Some (34634 / 100)), Num (Some (98765 / 100))]),
      (''Cap'', [Num None, Num None]),
      (''Name'', [Str ''JPMorgan Chase'', Str ''Bank of America'']),
      (''MC_USD_Billion'', [Num (Some (43292 / 100)), Num (Some (1234567 / 1000))]),
      (''MC_EUR_Billion'', [Num (Some (38963 / 100)), Num (Some (111111 / 100))]),
      (''MC_INR_Billion'', [Num (Some (346336 / 10)), Num (Some (9876536 / 100))])]"


text \<open>
  The database that \<^verbatim>\<open>sqlite3.connect(c)\<close> gives in the world \<open>W\<close>: the one stored under
  \<open>c\<close>, or an empty one.
\<close>

definition opened :: "'f world \<Rightarrow> string \<Rightarrow> (string \<rightharpoonup> 'f frame)" where
  "opened W c = (case databases W c of None \<Rightarrow> Map.empty | Some db \<Rightarrow> db)"

section \<open>Basic facts\<close>

lemmas page_defs = env_of_def one_anchor_page_def one_anchor_row_def bank_row_def
  short_row_page_def short_row_def bank_page_def bank_env_def find_all_def

lemmas extract_defs = extract_row_def data_dict_def dict_frame_def concat_frames_def
  columns_def column_or_nan_def nrows_def empty_frame_def Let_def

lemma and_then_Inl [simp]: "and_then (Inl e) f = Inl e"
  by (simp add: and_then_def)

lemma and_then_Inr [simp]: "and_then (Inr x) f = f x"
  by (simp add: and_then_def)

lemma py_index_in [simp]: "i < length xs \<Longrightarrow> py_index xs i = Inr (xs ! i)"
  by (simp add: py_index_def)

lemma py_index_out [simp]: "\<not> i < length xs \<Longrightarrow> py_index xs i = Inl IndexError"
  by (simp add: py_index_def)

section \<open>extract: rows that cannot be indexed\<close>

lemma extract_rows_append:
  "extract_rows H df (before @ rest) =
     and_then (extract_rows H df before) (\<lambda>df'. extract_rows H df' rest)"
proof (induction before arbitrary: df)
  case Nil
  show ?case by simp
next
  case (Cons r rs)
  show ?case
    by (cases "extract_row H df r") (simp_all add: Cons.IH)
qed

lemma extract_rows_failing_row:
  assumes "\<And>df'. extract_row H df' row = Inl e"
  shows "extract_rows H df (before @ row # after) =
           (case extract_rows H df before of Inl e' \<Rightarrow> Inl e' | Inr df' \<Rightarrow> Inl e)"
  by (simp add: extract_rows_append assms and_then_def)

lemma extract_df_on_page:
  assumes "web E u = Inr data" and "find_all ''tbody'' data = table # tables"
  shows "extract_df H E u names = extract_rows H (empty_frame names) (find_all ''tr'' table)"
  using assms by (simp add: extract_df_def)

lemma data_dict_few_anchors:
  assumes "1 < length col" and "length (find_all ''a'' (col ! 1)) < 2"
  shows "data_dict col = Inl IndexError"
  using assms by (simp add: data_dict_def)

lemma data_dict_few_cells:
  assumes "length col < 3"
  shows "data_dict col = Inl IndexError"
proof (cases "1 < length col")
  case False
  then show ?thesis by (simp add: data_dict_def)
next
  case True
  with assms have two: "\<not> 2 < length col" by simp
  show ?thesis
    using True two
    by (simp add: data_dict_def and_then_def py_index_def split: sum.splits)
qed

text \<open>
  Claim C6. A row of the first \<^verbatim>\<open><tbody>\<close> whose name cell (cell index 1) holds fewer than two
  \<^verbatim>\<open><a>\<close> elements is not skipped: the body of the loop raises IndexError on it, whatever the
  frame built so far, and so does \<open>extract\<close> once the rows before it are extracted (if one
  of them raises, that exception ends \<open>extract\<close> first). In no case does \<open>extract\<close> return
  a frame.
\<close>

theorem missing_anchor_is_index_error:
  assumes page: "web E u = Inr data" "find_all ''tbody'' data = table # tables"
    "find_all ''tr'' table = before @ row # after"
  and cell: "1 < length (find_all ''td'' row)"
  and anchors: "length (find_all ''a'' (find_all ''td'' row ! 1)) < 2"
  shows "extract_row H df row = Inl IndexError \<and>
         extract_df H E u attrs =
           (case extract_rows H (empty_frame attrs) before of
              Inl e \<Rightarrow> Inl e
            | Inr df' \<Rightarrow> Inl IndexError)"
proof -
  have dict: "data_dict (find_all ''td'' row) = Inl IndexError"
    using cell anchors by (rule data_dict_few_anchors)
  have row: "extract_row H df' row = Inl IndexError" for df'
    using cell by (auto simp: extract_row_def Let_def dict)
  show ?thesis
    using row extract_rows_failing_row [of H row IndexError] page
    by (simp add: extract_df_on_page [OF page(1,2)])
qed

theorem missing_anchor_is_index_error_witness:
  "web (env_of one_anchor_page) ''http://banks.example'' = Inr one_anchor_page \<and>
   find_all ''tbody'' one_anchor_page = [Tag ''tbody'' [bank_row, one_anchor_row]] \<and>
   find_all ''tr'' (Tag ''tbody'' [bank_row, one_anchor_row]) = [bank_row] @ one_anchor_row # [] \<and>
   1 < length (find_all ''td'' one_anchor_row) \<and>
   length (find_all ''a'' (find_all ''td'' one_anchor_row ! 1)) < 2 \<and>
   extract_row exact_host [] one_anchor_row = Inl IndexError \<and>
   extract_df exact_host (env_of one_anchor_page) ''http://banks.example''
     [''Name'', ''MC_USD_Billion''] = Inl IndexError"
proof -
  have h1: "web (env_of one_anchor_page) ''http://banks.example'' = Inr one_anchor_page"
    by (simp add: env_of_def)
  have h2: "find_all ''tbody'' one_anchor_page = [Tag ''tbody'' [bank_row, one_anchor_row]]"
    by (simp add: page_defs)
  have h3: "find_all ''tr'' (Tag ''tbody'' [bank_row, one_anchor_row]) =
      [bank_row] @ one_anchor_row # []"
    by (simp add: page_defs)
  have h4: "1 < length (find_all ''td'' one_anchor_row)"
    by (simp add: page_defs)
  have h5: "length (find_all ''a'' (find_all ''td'' one_anchor_row ! 1)) < 2"
    by (simp add: page_defs)
  have before: "extract_rows exact_host (empty_frame [''Name'', ''MC_USD_Billion'']) [bank_row] =
      Inr [(''Name'', [Str ''Bank A'']), (''MC_USD_Billion'', [Str ''100,000\<newline>''])]"
    by (simp add: page_defs extract_defs)
  show ?thesis
    using missing_anchor_is_index_error
        [OF h1 h2 h3 h4 h5, of exact_host "[]" "[''Name'', ''MC_USD_Billion'']"]
      h1 h2 h3 h4 h5 before
    by simp
qed

text \<open>
  Claim C10. The guard of line 61 admits every row with at least one \<^verbatim>\<open><td>\<close>. A row with
  one or two cells passes it and is not skipped: the body of the loop raises IndexError on
  it (at cell index 1, or at the latest at cell index 2), and so does \<open>extract\<close> once the
  rows before it are extracted.
\<close>

theorem short_row_is_index_error:
  assumes page: "web E u = Inr data" "find_all ''tbody'' data = table # tables"
    "find_all ''tr'' table = before @ row # after"
  and cells: "0 < length (find_all ''td'' row)" "length (find_all ''td'' row) < 3"
  shows "extract_row H df row = Inl IndexError \<and>
         extract_df H E u attrs =
           (case extract_rows H (empty_frame attrs) before of
              Inl e \<Rightarrow> Inl e
            | Inr df' \<Rightarrow> Inl IndexError)"
proof -
  have dict: "data_dict (find_all ''td'' row) = Inl IndexError"
    using cells(2) by (rule data_dict_few_cells)
  have row: "extract_row H df' row = Inl IndexError" for df'
    using cells(1) by (auto simp: extract_row_def Let_def dict)
  show ?thesis
    using row extract_rows_failing_row [of H row IndexError] page
    by (simp add: extract_df_on_page [OF page(1,2)])
qed

theorem short_row_is_index_error_witness:
  "web (env_of short_row_page) ''http://banks.example'' = Inr short_row_page \<and>
   find_all ''tbody'' short_row_page = [Tag ''tbody'' [bank_row, short_row]] \<and>
   find_all ''tr'' (Tag ''tbody'' [bank_row, short_row]) = [bank_row] @ short_row # [] \<and>
   0 < length (find_all ''td'' short_row) \<and>
   length (find_all ''td'' short_row) < 3 \<and>
   extract_row exact_host [] short_row = Inl IndexError \<and>
   extract_df exact_host (env_of short_row_page) ''http://banks.example''
     [''Name'', ''MC_USD_Billion''] = Inl IndexError"
proof -
  have h1: "web (env_of short_row_page) ''http://banks.example'' = Inr short_row_page"
    by (simp add: env_of_def)
  have h2: "find_all ''tbody'' short_row_page = [Tag ''tbody'' [bank_row, short_row]]"
    by (simp add: page_defs)
  have h3: "find_all ''tr'' (Tag ''tbody'' [bank_row, short_row]) = [bank_row] @ short_row # []"
    by (simp add: page_defs)
  have h4: "0 < length (find_all ''td'' short_row)"
    by (simp add: page_defs)
  have h5: "length (find_all ''td'' short_row) < 3"
    by (simp add: page_defs)
  have before: "extract_rows exact_host (empty_frame [''Name'', ''MC_USD_Billion'']) [bank_row] =
      Inr [(''Name'', [Str ''Bank A'']), (''MC_USD_Billion'', [Str ''100,000\<newline>''])]"
    by (simp add: page_defs extract_defs)
  show ?thesis
    using short_row_is_index_error
        [OF h1 h2 h3 h4 h5, of exact_host "[]" "[''Name'', ''MC_USD_Billion'']"]
      h1 h2 h3 h4 h5 before
    by simp
qed

section \<open>transform: lists and columns\<close>

lemma split_chr_not_Nil [simp]: "split_chr sep s \<noteq> []"
  by (induction s) (auto split: list.splits)

lemma hd_split_chr: "hd (split_chr sep s) = takeWhile (\<lambda>c. c \<noteq> sep) s"
  by (induction s) (auto split: list.splits)

lemma concat_split_chr: "concat (split_chr sep s) = filter (\<lambda>c. c \<noteq> sep) s"
  by (induction s) (auto split: list.splits)

lemma py_index_0_split_chr:
  "py_index (split_chr sep s) 0 = Inr (takeWhile (\<lambda>c. c \<noteq> sep) s)"
proof -
  have "0 < length (split_chr sep s)" by simp
  then have "py_index (split_chr sep s) 0 = Inr (split_chr sep s ! 0)" by (rule py_index_in)
  also have "split_chr sep s ! 0 = hd (split_chr sep s)"
    by (simp add: hd_conv_nth)
  finally show ?thesis by (simp add: hd_split_chr)
qed

lemma clean_usd_Str: "clean_usd H (Str x) = py_float H (spec_cleaned x)"
  by (simp add: clean_usd_def py_index_0_split_chr concat_split_chr spec_cleaned_def)

lemma try_map_Inr_iff: "try_map f xs = Inr ys \<longleftrightarrow> list_all2 (\<lambda>x y. f x = Inr y) xs ys"
proof (induction xs arbitrary: ys)
  case Nil
  show ?case by auto
next
  case (Cons x xs)
  show ?case
    by (cases ys) (auto simp: Cons.IH [symmetric] split: sum.splits)
qed

lemma try_map_length: "try_map f xs = Inr ys \<Longrightarrow> length ys = length xs"
  by (simp add: try_map_Inr_iff list_all2_lengthD)

lemma try_map_nth:
  "try_map f xs = Inr ys \<Longrightarrow> i < length xs \<Longrightarrow> f (xs ! i) = Inr (ys ! i)"
  by (auto simp: try_map_Inr_iff dest: list_all2_nthD)

lemma try_map_all:
  assumes "\<forall>x \<in> set xs. f x = Inr (g x)"
  shows "try_map f xs = Inr (map g xs)"
  using assms by (induction xs) simp_all

lemma convert_Num:
  assumes "d (Str code) = Some (Num r)"
  shows "convert H d code (Num v) = Inr (Num (round2 H (fmul H v r)))"
  by (simp add: convert_def assms)

lemma try_map_convert:
  assumes "d (Str code) = Some (Num r)"
  shows "try_map (convert H d code) (map Num vs) = Inr (converted H r vs)"
proof -
  have step: "convert H d code (Num v) = Inr (Num (round2 H (fmul H v r)))" for v
    using assms by (rule convert_Num [where d = d and code = code and r = r])
  show ?thesis
    by (induction vs) (simp_all add: step converted_def)
qed

lemma count_label:
  "length (filter (\<lambda>l. l = c) (columns df)) = length (filter (\<lambda>(l, vs). l = c) df)"
  by (induction df) (auto simp: columns_def)

lemma count_label_0: "filter (\<lambda>l. l = c) xs = [] \<longleftrightarrow> c \<notin> set xs"
  by (auto simp: filter_empty_conv)

lemma filter_overwrite_other:
  assumes "c' \<noteq> c"
  shows "filter (\<lambda>(l, vs). l = c') (map (\<lambda>(l, old). if l = c then (l, ws) else (l, old)) df) =
         filter (\<lambda>(l, vs). l = c') df"
  using assms by (induction df) (auto split: if_splits)

lemma filter_spread_other:
  assumes "c' \<noteq> c"
  shows "filter (\<lambda>(l, vs). l = c') (spread_column c ws n df) = filter (\<lambda>(l, vs). l = c') df"
  using assms by (induction c ws n df rule: spread_column.induct) auto

lemma columns_spread [simp]: "columns (spread_column c ws n df) = columns df"
  by (induction c ws n df rule: spread_column.induct) (auto simp: columns_def)

lemma columns_overwrite [simp]:
  "columns (map (\<lambda>(l, old). if l = c then (l, ws) else (l, old)) df) = columns df"
  by (induction df) (auto simp: columns_def)

lemma columns_set_column:
  "columns (set_column df c ws) =
     (if c \<in> set (columns df) then columns df else columns df @ [c])"
proof (cases "c \<in> set (columns df)")
  case True
  then show ?thesis
    by (simp add: set_column_def Let_def count_label_0)
next
  case False
  then show ?thesis
    by (simp add: set_column_def Let_def count_label_0) (simp add: columns_def)
qed

lemma get_column_set_column_other:
  assumes "c' \<noteq> c"
  shows "get_column (set_column df c ws) c' = get_column df c'"
  using assms
  by (simp add: set_column_def Let_def get_column_def filter_overwrite_other filter_spread_other)

lemma get_column_set_column_same:
  assumes "get_column df c = Inr old"
  shows "get_column (set_column df c ws) c = Inr ws"
proof -
  from assms obtain n where one: "filter (\<lambda>(l, vs). l = c) df = [(n, old)]"
    by (auto simp: get_column_def split: list.splits)
  then have "(n, old) \<in> set (filter (\<lambda>(l, vs). l = c) df)" by simp
  then have n: "n = c" by auto
  have k: "length (filter (\<lambda>l. l = c) (columns df)) = 1"
    by (simp add: count_label one)
  have "filter (\<lambda>(l, vs). l = c) (map (\<lambda>(l, old). if l = c then (l, ws) else (l, old)) df) =
        map (\<lambda>(l, old). if l = c then (l, ws) else (l, old)) (filter (\<lambda>(l, vs). l = c) df)"
    by (induction df) (auto split: if_splits)
  then show ?thesis
    by (simp add: set_column_def Let_def k get_column_def one n)
qed

lemma set_column_plain:
  assumes "distinct (columns df) \<or> ws = []"
  shows "set_column df c ws =
     (if c \<in> set (columns df)
      then map (\<lambda>(l, old). if l = c then (l, ws) else (l, old)) df
      else df @ [(c, ws)])"
proof -
  let ?k = "length (filter (\<lambda>l. l = c) (columns df))"
  have no_spread: "\<not> (1 < ?k \<and> ?k = length ws)"
  proof
    assume k: "1 < ?k \<and> ?k = length ws"
    then have "ws \<noteq> []" by auto
    with assms have "distinct (columns df)" by simp
    then have "?k = card ({l. l = c} \<inter> set (columns df))"
      by (rule distinct_length_filter)
    also have "\<dots> \<le> card {c}"
      by (intro card_mono) auto
    finally show False using k by simp
  qed
  show ?thesis
  proof (cases "c \<in> set (columns df)")
    case True
    with no_spread show ?thesis
      by (auto simp: set_column_def Let_def count_label_0)
  next
    case False
    then show ?thesis
      by (simp add: set_column_def Let_def count_label_0)
  qed
qed

lemma spread_other_mem:
  assumes "l \<noteq> c"
  shows "(l, col) \<in> set (spread_column c ws n df) \<longleftrightarrow> (l, col) \<in> set df"
  using assms by (induction c ws n df rule: spread_column.induct) auto

lemma overwrite_other_mem:
  assumes "l \<noteq> c"
  shows "(l, col) \<in> (\<lambda>(l, old). if l = c then (l, ws) else (l, old)) ` set df \<longleftrightarrow>
         (l, col) \<in> set df"
  using assms by (force split: if_splits)

lemma set_column_other_mem:
  assumes "l \<noteq> c"
  shows "(l, col) \<in> set (set_column df c ws) \<longleftrightarrow> (l, col) \<in> set df"
  using assms
  by (simp add: set_column_def Let_def spread_other_mem overwrite_other_mem)

lemma set_column_label_mem:
  assumes "distinct (columns df) \<or> ws = []" and "(c, col) \<in> set (set_column df c ws)"
  shows "col = ws"
  using assms(2) unfolding set_column_plain [OF assms(1)]
  by (auto simp: columns_def split: if_splits intro: rev_image_eqI)

lemma set_column_has_label: "c \<in> set (columns (set_column df c ws))"
  by (simp add: columns_set_column)

lemma set_column_distinct:
  assumes "distinct (columns df)"
  shows "distinct (columns (set_column df c ws))"
  using assms by (simp add: columns_set_column)

lemma add_currency_result:
  assumes "d (Str code) = Some (Num r)" and "get_column df ''MC_USD_Billion'' = Inr (map Num vs)"
  shows "add_currency H d code label df = Inr (set_column df label (converted H r vs))"
  using assms by (simp add: add_currency_def try_map_convert)

lemma transform_result:
  assumes rd: "read_csv E p = Inr ce" "currency_exchange_dict ce = Inr d"
    and rates: "d (Str ''GBP'') = Some (Num g)" "d (Str ''EUR'') = Some (Num e)"
      "d (Str ''INR'') = Some (Num r)"
    and usd: "get_column df ''MC_USD_Billion'' = Inr xs" "try_map (clean_usd H) xs = Inr vs"
  shows "transform H E df p =
     Inr (set_column (set_column (set_column (set_column df ''MC_USD_Billion'' (map Num vs))
            ''MC_GBP_Billion'' (converted H g vs))
            ''MC_EUR_Billion'' (converted H e vs))
            ''MC_INR_Billion'' (converted H r vs))"
proof -
  let ?df0 = "set_column df ''MC_USD_Billion'' (map Num vs)"
  let ?df1 = "set_column ?df0 ''MC_GBP_Billion'' (converted H g vs)"
  let ?df2 = "set_column ?df1 ''MC_EUR_Billion'' (converted H e vs)"
  have c0: "get_column ?df0 ''MC_USD_Billion'' = Inr (map Num vs)"
    using usd(1) by (rule get_column_set_column_same)
  have c1: "get_column ?df1 ''MC_USD_Billion'' = Inr (map Num vs)"
    by (simp add: get_column_set_column_other c0)
  have c2: "get_column ?df2 ''MC_USD_Billion'' = Inr (map Num vs)"
    by (simp add: get_column_set_column_other c1)
  have s1: "add_currency H d ''GBP'' ''MC_GBP_Billion'' ?df0 = Inr ?df1"
    using rates(1) c0 by (rule add_currency_result)
  have s2: "add_currency H d ''EUR'' ''MC_EUR_Billion'' ?df1 = Inr ?df2"
    using rates(2) c1 by (rule add_currency_result)
  have s3: "add_currency H d ''INR'' ''MC_INR_Billion'' ?df2 =
      Inr (set_column ?df2 ''MC_INR_Billion'' (converted H r vs))"
    using rates(3) c2 by (rule add_currency_result)
  show ?thesis
    by (simp add: transform_def rd usd s1 s2 s3)
qed

lemma transform_usd_column:
  assumes rd: "read_csv E p = Inr ce" "currency_exchange_dict ce = Inr d"
    and rates: "d (Str ''GBP'') = Some (Num g)" "d (Str ''EUR'') = Some (Num e)"
      "d (Str ''INR'') = Some (Num r)"
    and usd: "get_column df ''MC_USD_Billion'' = Inr xs" "try_map (clean_usd H) xs = Inr vs"
  shows "\<exists>df'. transform H E df p = Inr df' \<and>
           get_column df' ''MC_USD_Billion'' = Inr (map Num vs)"
proof -
  have "get_column (set_column df ''MC_USD_Billion'' (map Num vs)) ''MC_USD_Billion'' =
      Inr (map Num vs)"
    using usd(1) by (rule get_column_set_column_same)
  then show ?thesis
    by (simp add: transform_result [OF assms] get_column_set_column_other)
qed


section \<open>The frames extract builds\<close>

lemma dict_frame_columns:
  assumes "dict_frame H d = Inr df1"
  shows "columns df1 = [''Name'', ''MC_USD_Billion'']"
  using assms
  by (auto simp: dict_frame_def and_then_def columns_def
      split: prod.splits node.splits sum.splits)

lemma columns_zip_append:
  assumes "length df = length df1"
  shows "columns (map (\<lambda>((c, vs), (c1, ws)). (c, vs @ ws)) (zip df df1)) = columns df"
  using assms by (induction df df1 rule: list_induct2) (auto simp: columns_def)

lemma concat_frames_shape:
  assumes "concat_frames H df df1 = Inr r" and "distinct (columns df1)"
  shows "distinct (columns r) \<and> set (columns r) = set (columns df) \<union> set (columns df1)"
proof (cases "columns df = columns df1")
  case True
  then have len: "length df = length df1"
    by (metis columns_def length_map)
  from assms(1) True have "r = map (\<lambda>((c, vs), (c1, ws)). (c, vs @ ws)) (zip df df1)"
    by (simp add: concat_frames_def)
  then have "columns r = columns df"
    using columns_zip_append [OF len] by simp
  with True assms(2) show ?thesis by simp
next
  case False
  with assms(1) have d: "distinct (columns df)"
    and r: "r = map (\<lambda>c. (c, column_or_nan H df c @ column_or_nan H df1 c))
                  (columns df @ filter (\<lambda>c. c \<notin> set (columns df)) (columns df1))"
    by (auto simp: concat_frames_def split: if_splits)
  have "columns r = columns df @ filter (\<lambda>c. c \<notin> set (columns df)) (columns df1)"
    by (simp add: r columns_def comp_def)
  with d assms(2) show ?thesis by auto
qed

lemma extract_row_shape:
  assumes "extract_row H df row = Inr df'"
  shows "df' = df \<or>
         (distinct (columns df') \<and>
          set (columns df') = set (columns df) \<union> {''Name'', ''MC_USD_Billion''})"
proof (cases "find_all ''td'' row = []")
  case True
  with assms show ?thesis by (simp add: extract_row_def)
next
  case False
  with assms obtain d df1 where "dict_frame H d = Inr df1" "concat_frames H df df1 = Inr df'"
    by (auto simp: extract_row_def Let_def and_then_def split: sum.splits)
  then show ?thesis
    using dict_frame_columns [of H d df1] concat_frames_shape [of H df df1 df'] by simp
qed

lemma extract_rows_shape:
  assumes "extract_rows H df rows = Inr df'"
  shows "df' = df \<or>
         (distinct (columns df') \<and>
          set (columns df') = set (columns df) \<union> {''Name'', ''MC_USD_Billion''})"
  using assms
proof (induction rows arbitrary: df)
  case Nil
  then show ?case by simp
next
  case (Cons row rows)
  from Cons.prems obtain df1 where step: "extract_row H df row = Inr df1"
    and rest: "extract_rows H df1 rows = Inr df'"
    by (auto simp: and_then_def split: sum.splits)
  from extract_row_shape [OF step] Cons.IH [OF rest] show ?case
    by auto
qed

lemma extract_df_shape:
  assumes "extract_df H E u attrs = Inr df"
  shows "df = empty_frame attrs \<or>
         (distinct (columns df) \<and>
          set (columns df) = set attrs \<union> {''Name'', ''MC_USD_Billion''})"
proof -
  from assms obtain rows where "extract_rows H (empty_frame attrs) rows = Inr df"
    by (auto simp: extract_df_def and_then_def split: sum.splits)
  from extract_rows_shape [OF this] show ?thesis
    by (simp add: empty_frame_def columns_def comp_def)
qed

lemma concat_frames_same:
  assumes "concat_frames H df df1 = Inr r" and "columns df = columns df1"
  shows "columns r = columns df"
proof -
  from assms(2) have len: "length df = length df1"
    by (metis columns_def length_map)
  from assms have "r = map (\<lambda>((c, vs), (c1, ws)). (c, vs @ ws)) (zip df df1)"
    by (simp add: concat_frames_def)
  then show ?thesis
    using columns_zip_append [OF len] by simp
qed

lemma extract_row_columns:
  assumes "extract_row H df row = Inr df'" and "columns df = [''Name'', ''MC_USD_Billion'']"
  shows "columns df' = [''Name'', ''MC_USD_Billion'']"
proof (cases "find_all ''td'' row = []")
  case True
  with assms show ?thesis by (simp add: extract_row_def)
next
  case False
  with assms(1) obtain d df1 where "dict_frame H d = Inr df1"
    "concat_frames H df df1 = Inr df'"
    by (auto simp: extract_row_def Let_def and_then_def split: sum.splits)
  then show ?thesis
    using dict_frame_columns [of H d df1] concat_frames_same [of H df df1 df'] assms(2)
    by simp
qed

lemma extract_rows_columns:
  assumes "extract_rows H df rows = Inr df'" and "columns df = [''Name'', ''MC_USD_Billion'']"
  shows "columns df' = [''Name'', ''MC_USD_Billion'']"
  using assms
proof (induction rows arbitrary: df)
  case Nil
  then show ?case by simp
next
  case (Cons row rows)
  from Cons.prems(1) obtain df1 where step: "extract_row H df row = Inr df1"
    and rest: "extract_rows H df1 rows = Inr df'"
    by (auto simp: and_then_def split: sum.splits)
  from extract_row_columns [OF step Cons.prems(2)] Cons.IH [OF rest] show ?case
    by simp
qed

lemma extract_df_columns:
  assumes "extract_df H E u [''Name'', ''MC_USD_Billion''] = Inr df"
  shows "columns df = [''Name'', ''MC_USD_Billion'']"
proof -
  from assms obtain rows
    where "extract_rows H (empty_frame [''Name'', ''MC_USD_Billion'']) rows = Inr df"
    by (auto simp: extract_df_def and_then_def split: sum.splits)
  then show ?thesis
    by (rule extract_rows_columns) (simp add: empty_frame_def columns_def)
qed

lemma get_column_mem: "get_column df c = Inr xs \<Longrightarrow> (c, xs) \<in> set df"
proof -
  assume "get_column df c = Inr xs"
  then obtain n where one: "filter (\<lambda>(n, vs). n = c) df = [(n, xs)]"
    by (auto simp: get_column_def split: list.splits)
  then have "(n, xs) \<in> set (filter (\<lambda>(n, vs). n = c) df)" by simp
  then show ?thesis by auto
qed

lemma extract_df_usable:
  assumes "extract_df H E u attrs = Inr df" and "get_column df ''MC_USD_Billion'' = Inr xs"
  shows "distinct (columns df) \<or> xs = []"
proof -
  from extract_df_shape [OF assms(1)] show ?thesis
  proof
    assume "df = empty_frame attrs"
    with get_column_mem [OF assms(2)] show ?thesis
      by (auto simp: empty_frame_def)
  qed simp
qed

lemma extract_df_labels:
  assumes "extract_df H E u attrs = Inr df" and "c \<notin> set attrs"
    and "c \<noteq> ''Name''" and "c \<noteq> ''MC_USD_Billion''"
  shows "c \<notin> set (columns df)"
  using extract_df_shape [OF assms(1)] assms(2-4)
  by (auto simp: empty_frame_def columns_def comp_def)


section \<open>transform: the cleaning\<close>

lemma try_map_clean_fails:
  assumes "\<forall>c \<in> set xs. \<exists>s. c = Str s"
    and "\<exists>s. Str s \<in> set xs \<and> float_of_str H (spec_cleaned s) = None"
  shows "try_map (clean_usd H) xs = Inl ValueError"
  using assms
proof (induction xs)
  case Nil
  then show ?case by simp
next
  case (Cons c cs)
  from Cons.prems(1) obtain s where c: "c = Str s" by auto
  show ?case
  proof (cases "float_of_str H (spec_cleaned s)")
    case None
    then show ?thesis by (simp add: c clean_usd_Str py_float_def)
  next
    case (Some v)
    with Cons.prems c have "\<exists>s. Str s \<in> set cs \<and> float_of_str H (spec_cleaned s) = None"
      by auto
    with Cons.IH Cons.prems(1) have "try_map (clean_usd H) cs = Inl ValueError" by simp
    then show ?thesis by (simp add: c clean_usd_Str py_float_def Some)
  qed
qed

lemma try_map_clean_parses:
  assumes "\<forall>s \<in> set ss. float_of_str H (spec_cleaned s) = Some (f s)"
  shows "try_map (clean_usd H) (map Str ss) = Inr (map f ss)"
  using assms by (induction ss) (simp_all add: clean_usd_Str py_float_def)

theorem clean_usd_law:
  "clean_usd H (Str x) = py_float H (spec_cleaned x) \<and>
   clean_usd H (Str ''1,234.5\<newline>footnote'') = py_float H ''1234.5'' \<and>
   (float_of_str H (spec_cleaned x) = None \<longrightarrow> clean_usd H (Str x) = Inl ValueError) \<and>
   (\<forall>v. float_of_str H (spec_cleaned x) = Some v \<longrightarrow> clean_usd H (Str x) = Inr v) \<and>
   (read_csv E p = Inr ce \<and> currency_exchange_dict ce = Inr d \<and>
    get_column df ''MC_USD_Billion'' = Inr xs \<and> (\<forall>c \<in> set xs. \<exists>s. c = Str s) \<and>
    (\<exists>s. Str s \<in> set xs \<and> float_of_str H (spec_cleaned s) = None) \<longrightarrow>
    transform H E df p = Inl ValueError) \<and>
   (read_csv E p = Inr ce \<and> currency_exchange_dict ce = Inr d \<and>
    d (Str ''GBP'') = Some (Num g) \<and> d (Str ''EUR'') = Some (Num e) \<and>
    d (Str ''INR'') = Some (Num r) \<and>
    get_column df ''MC_USD_Billion'' = Inr (map Str ss) \<and>
    (\<forall>s \<in> set ss. float_of_str H (spec_cleaned s) = Some (f s)) \<longrightarrow>
    (\<exists>df'. transform H E df p = Inr df' \<and>
           get_column df' ''MC_USD_Billion'' = Inr (map (\<lambda>s. Num (f s)) ss)))"
proof -
  have example: "spec_cleaned ''1,234.5\<newline>footnote'' = ''1234.5''"
    by (simp add: spec_cleaned_def)
  have fails: "transform H E df p = Inl ValueError"
    if "read_csv E p = Inr ce" "currency_exchange_dict ce = Inr d"
      "get_column df ''MC_USD_Billion'' = Inr xs" "\<forall>c \<in> set xs. \<exists>s. c = Str s"
      "\<exists>s. Str s \<in> set xs \<and> float_of_str H (spec_cleaned s) = None"
    using that try_map_clean_fails [of xs H] by (simp add: transform_def)
  have cleans: "\<exists>df'. transform H E df p = Inr df' \<and>
      get_column df' ''MC_USD_Billion'' = Inr (map (\<lambda>s. Num (f s)) ss)"
    if rd: "read_csv E p = Inr ce" "currency_exchange_dict ce = Inr d"
      and rates: "d (Str ''GBP'') = Some (Num g)" "d (Str ''EUR'') = Some (Num e)"
        "d (Str ''INR'') = Some (Num r)"
      and col: "get_column df ''MC_USD_Billion'' = Inr (map Str ss)"
      and ok: "\<forall>s \<in> set ss. float_of_str H (spec_cleaned s) = Some (f s)"
  proof -
    have "try_map (clean_usd H) (map Str ss) = Inr (map f ss)"
      using ok by (rule try_map_clean_parses)
    from transform_usd_column [OF rd rates col this] show ?thesis
      by (simp add: comp_def)
  qed
  show ?thesis
    using fails cleans example clean_usd_Str [of H "''1,234.5\<newline>footnote''"]
    by (auto simp: clean_usd_Str py_float_def)
qed

lemma rates_file: "read_csv bank_env ''exchange_rate.csv'' = Inr rates"
  by (simp add: bank_env_def env_of_def)

lemma rates_dict:
  "currency_exchange_dict rates =
     Inr (map_of (rev (zip [Str ''GBP'', Str ''EUR'', Str ''INR'']
            [Num (Some (4 / 5)), Num (Some (9 / 10)), Num (Some 80)])))"
  by (simp add: currency_exchange_dict_def rates_def)

lemma decimal_examples:
  "decimal ''1234.5'' = Some (2469 / 2)" "decimal ''432.92'' = Some (43292 / 100)"
  "decimal ''1234.567'' = Some (1234567 / 1000)" "decimal ''100000'' = Some 100000"
  "decimal ''n/a'' = None"
  by (simp_all add: decimal_def digit_val_def)

theorem clean_usd_law_witness:
  "clean_usd exact_host (Str ''1,234.5\<newline>footnote'') = Inr (Some (2469 / 2)) \<and>
   clean_usd exact_host (Str ''n/a'') = Inl ValueError \<and>
   transform exact_host bank_env na_frame ''exchange_rate.csv'' = Inl ValueError \<and>
   (\<exists>df'. transform exact_host bank_env footnote_frame ''exchange_rate.csv'' = Inr df' \<and>
      get_column df' ''MC_USD_Billion'' =
        Inr [Num (Some (2469 / 2)), Num (Some (43292 / 100))])"
proof -
  let ?xs = "[Str ''1,234.5\<newline>footnote'', Str ''n/a''] :: rat option cell list"
  let ?d = "map_of (rev (zip [Str ''GBP'', Str ''EUR'', Str ''INR'']
             [Num (Some (4 / 5)), Num (Some (9 / 10)), Num (Some 80 :: rat option)]))"
  let ?ss = "[''1,234.5\<newline>footnote'', ''432.92\<newline>'']"
  let ?f = "\<lambda>s. if s = ''432.92\<newline>'' then Some (43292 / 100) else Some (2469 / 2 :: rat)"
  have f1: "float_of_str exact_host (spec_cleaned ''1,234.5\<newline>footnote'') = Some (Some (2469 / 2))"
    by (simp add: exact_host_def spec_cleaned_def decimal_examples)
  have f2: "float_of_str exact_host (spec_cleaned ''n/a'') = None"
    by (simp add: exact_host_def spec_cleaned_def decimal_examples)
  have f3: "float_of_str exact_host (spec_cleaned ''432.92\<newline>'') = Some (Some (43292 / 100))"
    by (simp add: exact_host_def spec_cleaned_def decimal_examples)
  have col: "get_column na_frame ''MC_USD_Billion'' = Inr ?xs"
    by (simp add: get_column_def na_frame_def)
  have col2: "get_column footnote_frame ''MC_USD_Billion'' = Inr (map Str ?ss)"
    by (simp add: get_column_def footnote_frame_def)
  have g: "?d (Str ''GBP'') = Some (Num (Some (4 / 5)))" by simp
  have e: "?d (Str ''EUR'') = Some (Num (Some (9 / 10)))" by simp
  have r: "?d (Str ''INR'') = Some (Num (Some 80))" by simp
  have strings: "\<forall>c \<in> set ?xs. \<exists>s. c = Str s" by simp
  have bad: "\<exists>s. Str s \<in> set ?xs \<and> float_of_str exact_host (spec_cleaned s) = None"
    using f2 by (intro exI [of _ "''n/a''"]) simp
  have parsed: "\<forall>s \<in> set ?ss. float_of_str exact_host (spec_cleaned s) = Some (?f s)"
    using f1 f3 by simp
  have c1: "clean_usd exact_host (Str ''1,234.5\<newline>footnote'') = Inr (Some (2469 / 2))"
    using clean_usd_law [of exact_host "''1,234.5\<newline>footnote''"] f1 by blast
  have c2: "clean_usd exact_host (Str ''n/a'') = Inl ValueError"
    using clean_usd_law [of exact_host "''n/a''"] f2 by blast
  have c3: "transform exact_host bank_env na_frame ''exchange_rate.csv'' = Inl ValueError"
    using clean_usd_law [of exact_host "''n/a''" bank_env "''exchange_rate.csv''" rates ?d
        na_frame ?xs]
      rates_file rates_dict col strings bad by blast
  have c4: "\<exists>df'. transform exact_host bank_env footnote_frame ''exchange_rate.csv'' = Inr df' \<and>
      get_column df' ''MC_USD_Billion'' = Inr (map (\<lambda>s. Num (?f s)) ?ss)"
    using clean_usd_law [of exact_host "''n/a''" bank_env "''exchange_rate.csv''" rates ?d
        footnote_frame _ "Some (4 / 5)" "Some (9 / 10)" "Some 80" ?ss ?f]
      rates_file rates_dict g e r col2 parsed by blast
  show ?thesis
    using c1 c2 c3 c4 by simp
qed


section \<open>transform: the conversions\<close>

lemma transform_derived:
  assumes rd: "read_csv E p = Inr ce" "currency_exchange_dict ce = Inr d"
    and rates: "d (Str ''GBP'') = Some (Num g)" "d (Str ''EUR'') = Some (Num e)"
      "d (Str ''INR'') = Some (Num r)"
    and usd: "get_column df ''MC_USD_Billion'' = Inr xs" "try_map (clean_usd H) xs = Inr vs"
    and shape: "distinct (columns df) \<or> xs = []"
  shows "\<exists>df'. transform H E df p = Inr df' \<and>
     get_column df' ''MC_USD_Billion'' = Inr (map Num vs) \<and>
     ''MC_GBP_Billion'' \<in> set (columns df') \<and>
     (\<forall>col. (''MC_GBP_Billion'', col) \<in> set df' \<longrightarrow> col = converted H g vs) \<and>
     ''MC_EUR_Billion'' \<in> set (columns df') \<and>
     (\<forall>col. (''MC_EUR_Billion'', col) \<in> set df' \<longrightarrow> col = converted H e vs) \<and>
     ''MC_INR_Billion'' \<in> set (columns df') \<and>
     (\<forall>col. (''MC_INR_Billion'', col) \<in> set df' \<longrightarrow> col = converted H r vs)"
proof -
  let ?df0 = "set_column df ''MC_USD_Billion'' (map Num vs)"
  let ?df1 = "set_column ?df0 ''MC_GBP_Billion'' (converted H g vs)"
  let ?df2 = "set_column ?df1 ''MC_EUR_Billion'' (converted H e vs)"
  let ?df3 = "set_column ?df2 ''MC_INR_Billion'' (converted H r vs)"
  have result: "transform H E df p = Inr ?df3"
    using rd rates usd by (rule transform_result)
  have len: "length vs = length xs"
    using usd(2) by (rule try_map_length)
  have sh0: "distinct (columns ?df0) \<or> converted H g vs = []"
    using shape len by (auto simp: set_column_distinct converted_def)
  have sh1: "distinct (columns ?df1) \<or> converted H e vs = []"
    using shape len by (auto simp: set_column_distinct converted_def)
  have sh2: "distinct (columns ?df2) \<or> converted H r vs = []"
    using shape len by (auto simp: set_column_distinct converted_def)
  have c0: "get_column ?df0 ''MC_USD_Billion'' = Inr (map Num vs)"
    using usd(1) by (rule get_column_set_column_same)
  have usd': "get_column ?df3 ''MC_USD_Billion'' = Inr (map Num vs)"
    by (simp add: get_column_set_column_other c0)
  have gbp_in: "''MC_GBP_Billion'' \<in> set (columns ?df3)"
    using set_column_has_label [of "''MC_GBP_Billion''" ?df0 "converted H g vs"]
    by (simp add: columns_set_column [of ?df2] columns_set_column [of ?df1])
  have eur_in: "''MC_EUR_Billion'' \<in> set (columns ?df3)"
    using set_column_has_label [of "''MC_EUR_Billion''" ?df1 "converted H e vs"]
    by (simp add: columns_set_column [of ?df2])
  have inr_in: "''MC_INR_Billion'' \<in> set (columns ?df3)"
    by (rule set_column_has_label)
  have gbp: "col = converted H g vs" if "(''MC_GBP_Billion'', col) \<in> set ?df3" for col
  proof -
    from that have "(''MC_GBP_Billion'', col) \<in> set ?df1"
      by (simp add: set_column_other_mem)
    with sh0 show ?thesis by (rule set_column_label_mem)
  qed
  have eur: "col = converted H e vs" if "(''MC_EUR_Billion'', col) \<in> set ?df3" for col
  proof -
    from that have "(''MC_EUR_Billion'', col) \<in> set ?df2"
      by (simp add: set_column_other_mem)
    with sh1 show ?thesis by (rule set_column_label_mem)
  qed
  have inr: "col = converted H r vs" if "(''MC_INR_Billion'', col) \<in> set ?df3" for col
    using sh2 that by (rule set_column_label_mem)
  show ?thesis
    using result usd' gbp_in eur_in inr_in gbp eur inr by blast
qed

text \<open>
  Claim C5. Let \<open>df\<close> be a frame that \<open>extract\<close> returns, or any frame whose column labels
  are distinct. Whatever the rates of the file are, when the cleaning of the USD column
  gives the values \<open>vs\<close>, \<open>transform\<close> returns a frame whose USD column is \<open>vs\<close>, that has the
  labels GBP, EUR and INR, and in which every column under one of these labels holds, row
  by row, \<^verbatim>\<open>np.round\<close> to 2 places of the product of the cleaned USD value and the rate of
  that currency: \<open>round2 (fmul v g)\<close> for GBP, and so on. The product and the rounding are
  the host's. (A frame with a derived label repeated as many times as it has rows is not
  such a frame: there the assignment gives column \<open>i\<close> the value \<open>i\<close> in every row.)
\<close>

theorem transform_converts:
  assumes rd: "read_csv E p = Inr ce" "currency_exchange_dict ce = Inr d"
    and rates: "d (Str ''GBP'') = Some (Num g)" "d (Str ''EUR'') = Some (Num e)"
      "d (Str ''INR'') = Some (Num r)"
    and df: "(\<exists>u attrs. extract_df H E u attrs = Inr df) \<or> distinct (columns df)"
    and usd: "get_column df ''MC_USD_Billion'' = Inr xs" "try_map (clean_usd H) xs = Inr vs"
  shows "\<exists>df'. transform H E df p = Inr df' \<and>
     get_column df' ''MC_USD_Billion'' = Inr (map Num vs) \<and>
     ''MC_GBP_Billion'' \<in> set (columns df') \<and>
     (\<forall>col. (''MC_GBP_Billion'', col) \<in> set df' \<longrightarrow>
        col = map (\<lambda>v. Num (round2 H (fmul H v g))) vs) \<and>
     ''MC_EUR_Billion'' \<in> set (columns df') \<and>
     (\<forall>col. (''MC_EUR_Billion'', col) \<in> set df' \<longrightarrow>
        col = map (\<lambda>v. Num (round2 H (fmul H v e))) vs) \<and>
     ''MC_INR_Billion'' \<in> set (columns df') \<and>
     (\<forall>col. (''MC_INR_Billion'', col) \<in> set df' \<longrightarrow>
        col = map (\<lambda>v. Num (round2 H (fmul H v r))) vs)"
proof -
  have "distinct (columns df) \<or> xs = []"
    using df usd(1) by (auto dest: extract_df_usable)
  from transform_derived [OF rd rates usd this] show ?thesis
    by (simp only: converted_def)
qed

lemma banks_extract:
  "extract_df exact_host (env_of banks_page) ''http://banks.example''
     [''Name'', ''MC_USD_Billion''] = Inr banks_frame"
  by (simp add: extract_df_def page_defs extract_defs banks_frame_def banks_page_def
      jp_row_def boa_row_def)

lemma banks_rates_file: "read_csv (env_of banks_page) ''exchange_rate.csv'' = Inr rates"
  by (simp add: env_of_def)

lemma banks_clean:
  "try_map (clean_usd exact_host) [Str ''432.92\<newline>'', Str ''1,234.567\<newline>''] =
     Inr [Some (43292 / 100), Some (1234567 / 1000)]"
  by (simp add: clean_usd_Str spec_cleaned_def py_float_def exact_host_def decimal_examples)

lemma round_half_even_near:
  assumes "of_int n - 1 / 2 < x" and "x < of_int n + 1 / 2"
  shows "round_half_even x = n"
proof -
  have lo: "of_int \<lfloor>x\<rfloor> \<le> x" and hi: "x < of_int \<lfloor>x\<rfloor> + 1"
    by linarith+
  from assms lo have "(of_int \<lfloor>x\<rfloor> :: rat) < of_int n + 1" by linarith
  then have "(of_int \<lfloor>x\<rfloor> :: rat) < of_int (n + 1)" by simp
  then have le: "\<lfloor>x\<rfloor> \<le> n" by (simp only: of_int_less_iff)
  from assms hi have "(of_int n :: rat) < of_int \<lfloor>x\<rfloor> + 2" by linarith
  then have "(of_int n :: rat) < of_int (\<lfloor>x\<rfloor> + 2)" by simp
  then have ge: "n \<le> \<lfloor>x\<rfloor> + 1" by (simp only: of_int_less_iff)
  from le ge consider "\<lfloor>x\<rfloor> = n" | "\<lfloor>x\<rfloor> = n - 1" by linarith
  then show ?thesis
  proof cases
    case 1
    with assms show ?thesis by (simp add: round_half_even_def Let_def)
  next
    case 2
    with assms show ?thesis by (simp add: round_half_even_def Let_def)
  qed
qed

lemma banks_rounding:
  "round2 exact_host (fmul exact_host (Some (43292 / 100)) (Some (4 / 5))) = Some (34634 / 100)"
  "round2 exact_host (fmul exact_host (Some (1234567 / 1000)) (Some (4 / 5))) =
     Some (98765 / 100)"
  "round2 exact_host (fmul exact_host (Some (43292 / 100)) (Some (9 / 10))) =
     Some (38963 / 100)"
  "round2 exact_host (fmul exact_host (Some (1234567 / 1000)) (Some (9 / 10))) =
     Some (111111 / 100)"
  "round2 exact_host (fmul exact_host (Some (43292 / 100)) (Some 80)) = Some (346336 / 10)"
  "round2 exact_host (fmul exact_host (Some (1234567 / 1000)) (Some 80)) =
     Some (9876536 / 100)"
  by (simp_all add: exact_host_def round_half_even_near [of 34634] round_half_even_near [of 98765]
   round_half_even_near [of 38963] round_half_even_near [of 111111] round_half_even_near [of 3463360]
   round_half_even_near [of 9876536])

theorem transform_converts_witness:
  "extract_df exact_host (env_of banks_page) ''http://banks.example''
     [''Name'', ''MC_USD_Billion''] = Inr banks_frame \<and>
   (\<exists>df'. transform exact_host (env_of banks_page) banks_frame ''exchange_rate.csv'' = Inr df' \<and>
     get_column df' ''MC_USD_Billion'' =
       Inr [Num (Some (43292 / 100)), Num (Some (1234567 / 1000))] \<and>
     ''MC_GBP_Billion'' \<in> set (columns df') \<and>
     (\<forall>col. (''MC_GBP_Billion'', col) \<in> set df' \<longrightarrow>
        col = [Num (Some (34634 / 100)), Num (Some (98765 / 100))]) \<and>
     ''MC_EUR_Billion'' \<in> set (columns df') \<and>
     (\<forall>col. (''MC_EUR_Billion'', col) \<in> set df' \<longrightarrow>
        col = [Num (Some (38963 / 100)), Num (Some (111111 / 100))]) \<and>
     ''MC_INR_Billion'' \<in> set (columns df') \<and>
     (\<forall>col. (''MC_INR_Billion'', col) \<in> set df' \<longrightarrow>
        col = [Num (Some (346336 / 10)), Num (Some (9876536 / 100))]))"
proof -
  let ?d = "map_of (rev (zip [Str ''GBP'', Str ''EUR'', Str ''INR'']
             [Num (Some (4 / 5)), Num (Some (9 / 10)), Num (Some 80 :: rat option)]))"
  have g: "?d (Str ''GBP'') = Some (Num (Some (4 / 5)))" by simp
  have e: "?d (Str ''EUR'') = Some (Num (Some (9 / 10)))" by simp
  have r: "?d (Str ''INR'') = Some (Num (Some 80))" by simp
  have from_extract: "(\<exists>u attrs. extract_df exact_host (env_of banks_page) u attrs =
      Inr banks_frame) \<or> distinct (columns banks_frame)"
    using banks_extract by blast
  have col: "get_column banks_frame ''MC_USD_Billion'' =
      Inr [Str ''432.92\<newline>'', Str ''1,234.567\<newline>'']"
    by (simp add: get_column_def banks_frame_def)
  from transform_converts [OF banks_rates_file rates_dict g e r from_extract col banks_clean]
  show ?thesis
    by (simp only: list.map banks_rounding banks_extract simp_thms)
qed


section \<open>transform: rows and columns\<close>

lemma frame_okD: "frame_ok df \<Longrightarrow> (c, vs) \<in> set df \<Longrightarrow> length vs = nrows df"
  by (auto simp: frame_ok_def list_all_iff)

lemma get_column_hd:
  assumes "get_column ((c, old) # rest) c = Inr xs"
  shows "xs = old"
  using assms by (auto simp: get_column_def split: list.splits if_splits)

lemma set_column_new: "c \<notin> set (columns df) \<Longrightarrow> set_column df c ws = df @ [(c, ws)]"
  by (simp add: set_column_def Let_def count_label_0)

lemma set_column_single:
  assumes "get_column df c = Inr old"
  shows "set_column df c ws = map (\<lambda>(l, old). if l = c then (l, ws) else (l, old)) df"
proof -
  from assms obtain n where "filter (\<lambda>(l, vs). l = c) df = [(n, old)]"
    by (auto simp: get_column_def split: list.splits)
  then have "length (filter (\<lambda>l. l = c) (columns df)) = 1"
    by (simp add: count_label)
  then show ?thesis
    by (simp add: set_column_def Let_def)
qed

lemma widened_frame:
  assumes rd: "read_csv E p = Inr ce" "currency_exchange_dict ce = Inr d"
    and rates: "d (Str ''GBP'') = Some (Num g)" "d (Str ''EUR'') = Some (Num e)"
      "d (Str ''INR'') = Some (Num r)"
    and usd: "get_column df ''MC_USD_Billion'' = Inr xs" "try_map (clean_usd H) xs = Inr vs"
    and new: "''MC_GBP_Billion'' \<notin> set (columns df)" "''MC_EUR_Billion'' \<notin> set (columns df)"
      "''MC_INR_Billion'' \<notin> set (columns df)"
  shows "\<exists>df'. transform H E df p = Inr df' \<and>
     df' = map (\<lambda>(n, old). if n = ''MC_USD_Billion'' then (n, map Num vs) else (n, old)) df @
           [(''MC_GBP_Billion'', converted H g vs), (''MC_EUR_Billion'', converted H e vs),
            (''MC_INR_Billion'', converted H r vs)] \<and>
     columns df' = columns df @ [''MC_GBP_Billion'', ''MC_EUR_Billion'', ''MC_INR_Billion''] \<and>
     nrows df' = nrows df \<and>
     (\<forall>c old. (c, old) \<in> set df \<and> c \<noteq> ''MC_USD_Billion'' \<longrightarrow> (c, old) \<in> set df') \<and>
     length vs = length xs \<and>
     (\<forall>i < length xs. clean_usd H (xs ! i) = Inr (vs ! i)) \<and>
     (frame_ok df \<longrightarrow> frame_ok df')"
proof -
  let ?over = "map (\<lambda>(n, old). if n = ''MC_USD_Billion'' then (n, map Num vs) else (n, old)) df"
  let ?df' = "?over @ [(''MC_GBP_Billion'', converted H g vs),
     (''MC_EUR_Billion'', converted H e vs), (''MC_INR_Billion'', converted H r vs)]"
  have mem: "(''MC_USD_Billion'', xs) \<in> set df"
    using usd(1) by (rule get_column_mem)
  have s0: "set_column df ''MC_USD_Billion'' (map Num vs) = ?over"
    using usd(1) by (rule set_column_single)
  have c0: "columns ?over = columns df"
    by (rule columns_overwrite)
  let ?df1 = "?over @ [(''MC_GBP_Billion'', converted H g vs)]"
  let ?df2 = "?over @ [(''MC_GBP_Billion'', converted H g vs),
     (''MC_EUR_Billion'', converted H e vs)]"
  have c1: "columns ?df1 = columns df @ [''MC_GBP_Billion'']"
    using c0 by (simp add: columns_def)
  have c2: "columns ?df2 = columns df @ [''MC_GBP_Billion'', ''MC_EUR_Billion'']"
    using c0 by (simp add: columns_def)
  have s1: "set_column ?over ''MC_GBP_Billion'' (converted H g vs) = ?df1"
    using new(1) by (simp only: set_column_new c0 not_False_eq_True)
  have n2: "''MC_EUR_Billion'' \<notin> set (columns ?df1)"
    using new(2) by (simp only: c1) simp
  have s2: "set_column ?df1 ''MC_EUR_Billion'' (converted H e vs) = ?df2"
    by (simp only: set_column_new [OF n2]) simp
  have n3: "''MC_INR_Billion'' \<notin> set (columns ?df2)"
    using new(3) by (simp only: c2) simp
  have s3: "set_column ?df2 ''MC_INR_Billion'' (converted H r vs) = ?df'"
    by (simp only: set_column_new [OF n3]) simp
  have result: "transform H E df p = Inr ?df'"
    by (simp only: transform_result [OF rd rates usd] s0 s1 s2 s3)
  have cols: "columns ?df' =
      columns df @ [''MC_GBP_Billion'', ''MC_EUR_Billion'', ''MC_INR_Billion'']"
    using columns_overwrite [of "''MC_USD_Billion''" "map Num vs" df]
    by (simp add: columns_def)
  have len: "length vs = length xs"
    using usd(2) by (rule try_map_length)
  have rows: "nrows ?df' = nrows df"
  proof (cases df)
    case Nil
    with mem show ?thesis by simp
  next
    case (Cons col rest)
    obtain c old where col: "col = (c, old)" by (cases col)
    show ?thesis
    proof (cases "c = ''MC_USD_Billion''")
      case True
      with usd(1) Cons col have "xs = old" by (auto dest: get_column_hd)
      with True Cons col len show ?thesis by (simp add: nrows_def)
    next
      case False
      with Cons col show ?thesis by (simp add: nrows_def)
    qed
  qed
  have kept: "(c, old) \<in> set ?df'" if "(c, old) \<in> set df" "c \<noteq> ''MC_USD_Billion''" for c old
  proof -
    from that have "(c, old) \<in> set ?over"
      by (auto simp: image_iff intro!: bexI [of _ "(c, old)"])
    then show ?thesis by simp
  qed
  have cleaned: "clean_usd H (xs ! i) = Inr (vs ! i)" if "i < length xs" for i
    using usd(2) that by (rule try_map_nth)
  have ok: "frame_ok ?df'" if "frame_ok df"
  proof -
    have n: "length xs = nrows df"
      using that mem by (rule frame_okD)
    have all: "\<forall>(c, ws) \<in> set df. length ws = nrows df"
      using that by (simp add: frame_ok_def list_all_iff)
    have over: "\<forall>(c, ws) \<in> set ?over. length ws = nrows df"
      using all len n by (auto split: if_splits)
    show ?thesis
      unfolding frame_ok_def list_all_iff rows
      using over len n by (auto simp: converted_def)
  qed
  show ?thesis
    using result cols rows kept len cleaned ok by blast
qed





section \<open>The CSV sink\<close>

declare string_of_nat.simps [simp del]

lemma join_comma_Cons: "ys \<noteq> [] \<Longrightarrow> join_comma (x # ys) = x @ '','' @ join_comma ys"
  by (cases ys) simp_all

lemma csv_record_row:
  assumes "df \<noteq> []"
  shows "csv_record H (x # map f df) =
     csv_field H x @ '','' @ join_comma (map (csv_field H \<circ> f) df) @ line_end H"
  using assms by (simp add: csv_record_def join_comma_Cons)

lemma csv_record_header:
  assumes "columns df \<noteq> []"
  shows "csv_record H ([] # columns df) =
     csv_field H [] @ '','' @ join_comma (map (csv_field H) (columns df)) @ line_end H"
  using assms by (simp add: csv_record_def join_comma_Cons)

lemma to_csv_text_rows:
  "to_csv_text H df =
     csv_record H ([] # columns df) @
     concat (map (\<lambda>i. csv_field H (string_of_nat i) @ '','' @
                      join_comma (map (\<lambda>(c, vs). csv_field H (cell_text H (vs ! i))) df) @
                      line_end H) [0..<nrows df])"
proof -
  have row: "csv_record H (string_of_nat i # map (\<lambda>(c, vs). cell_text H (vs ! i)) df) =
      csv_field H (string_of_nat i) @ '','' @
      join_comma (map (\<lambda>(c, vs). csv_field H (cell_text H (vs ! i))) df) @ line_end H"
    if "i \<in> set [0..<nrows df]" for i
  proof -
    from that have "df \<noteq> []" by (auto simp: nrows_def)
    then show ?thesis
      by (simp add: csv_record_row comp_def case_prod_unfold)
  qed
  have "map (csv_record H) (map (\<lambda>i. string_of_nat i # map (\<lambda>(c, vs). cell_text H (vs ! i)) df)
          [0..<nrows df]) =
        map (\<lambda>i. csv_field H (string_of_nat i) @ '','' @
               join_comma (map (\<lambda>(c, vs). csv_field H (cell_text H (vs ! i))) df) @ line_end H)
          [0..<nrows df]"
    unfolding map_map comp_def using row by (intro map_cong) auto
  then show ?thesis
    by (simp only: to_csv_text_def to_csv_records_def list.map concat.simps)
qed

lemma le32_Suc: "le32 (Suc t) \<noteq> le32 t"
  by (simp add: le32_def char_of_eq_iff take_bit_eq_mod mod_Suc)

lemma le32_examples:
  "le32 1704067200 = [CHR 0x80, CHR 0x00, CHR 0x92, CHR 0x65]"
  "le32 1704067201 = [CHR 0x81, CHR 0x00, CHR 0x92, CHR 0x65]"
  by (simp_all add: le32_def char_of_def bit_iff_odd)

lemma infer_examples:
  "infer_compression ''Largest_banks_data.csv'' = None"
  "infer_compression ''Largest_banks_data.csv.gz'' = Some Gzip"
  by (simp_all add: infer_compression_def ends_with_def lower_chr_def Let_def)


lemma floor_examples:
  "\<lfloor>43292 / 100 :: rat\<rfloor> = 432" "\<lfloor>43292 / 100 * 1000 :: rat\<rfloor> = 432920"
  "\<lfloor>1234567 / 1000 :: rat\<rfloor> = 1234" "\<lfloor>1234567 / 1000 * 1000 :: rat\<rfloor> = 1234567"
  "\<lfloor>34634 / 100 :: rat\<rfloor> = 346" "\<lfloor>34634 / 100 * 1000 :: rat\<rfloor> = 346340"
  "\<lfloor>98765 / 100 :: rat\<rfloor> = 987" "\<lfloor>98765 / 100 * 1000 :: rat\<rfloor> = 987650"
  "\<lfloor>38963 / 100 :: rat\<rfloor> = 389" "\<lfloor>38963 / 100 * 1000 :: rat\<rfloor> = 389630"
  "\<lfloor>111111 / 100 :: rat\<rfloor> = 1111" "\<lfloor>111111 / 100 * 1000 :: rat\<rfloor> = 1111110"
  "\<lfloor>346336 / 10 :: rat\<rfloor> = 34633" "\<lfloor>346336 / 10 * 1000 :: rat\<rfloor> = 34633600"
  "\<lfloor>9876536 / 100 :: rat\<rfloor> = 98765" "\<lfloor>9876536 / 100 * 1000 :: rat\<rfloor> = 98765360"
  by (simp_all add: floor_eq_iff)

lemma float_text_examples:
  "float_text exact_host (Some (43292 / 100)) = ''432.92''"
  "float_text exact_host (Some (1234567 / 1000)) = ''1234.567''"
  "float_text exact_host (Some (34634 / 100)) = ''346.34''"
  "float_text exact_host (Some (98765 / 100)) = ''987.65''"
  "float_text exact_host (Some (38963 / 100)) = ''389.63''"
  "float_text exact_host (Some (111111 / 100)) = ''1111.11''"
  "float_text exact_host (Some (346336 / 10)) = ''34633.6''"
  "float_text exact_host (Some (9876536 / 100)) = ''98765.36''"
  unfolding exact_host_def host.simps option.case floor_examples
  by (simp_all add: decimals_def string_of_nat.simps) code_simp+


lemma banks_text:
  "to_csv_text exact_host banks_result =
     '',Name,MC_USD_Billion,MC_GBP_Billion,MC_EUR_Billion,MC_INR_Billion\<newline>'' @
     ''0,JPMorgan Chase,432.92,346.34,389.63,34633.6\<newline>'' @
     ''1,Bank of America,1234.567,987.65,1111.11,98765.36\<newline>''"
proof -
  have index: "string_of_nat 0 = ''0''" "string_of_nat (Suc 0) = ''1''"
    by code_simp+
  have recs: "to_csv_records exact_host banks_result =
     [[[], ''Name'', ''MC_USD_Billion'', ''MC_GBP_Billion'', ''MC_EUR_Billion'', ''MC_INR_Billion''],
      [''0'', ''JPMorgan Chase'', ''432.92'', ''346.34'', ''389.63'', ''34633.6''],
      [''1'', ''Bank of America'', ''1234.567'', ''987.65'', ''1111.11'', ''98765.36'']]"
    unfolding to_csv_records_def banks_result_def nrows_def columns_def cell_text_def
    using float_text_examples by (simp add: index upt_rec)
  have plain: "csv_quoted exact_host s = list_ex (\<lambda>c. c = CHR '','' \<or> c = CHR 0x22 \<or> c = CHR ''\<newline>'') s"
    for s by (simp add: exact_host_def)
  have nl: "line_end exact_host = ''\<newline>''"
    by (simp add: exact_host_def)
  show ?thesis
    unfolding to_csv_text_def recs
    by (simp add: csv_record_def csv_field_def plain nl)
qed



section \<open>The database sink\<close>

lemma column_or_nan_length:
  assumes "frame_ok df"
  shows "length (column_or_nan H df c) = nrows df"
proof (cases "map_of df c")
  case None
  then show ?thesis by (simp add: column_or_nan_def)
next
  case (Some vs)
  then have "(c, vs) \<in> set df" by (rule map_of_SomeD)
  with assms have "length vs = nrows df" by (rule frame_okD)
  with Some show ?thesis by (simp add: column_or_nan_def)
qed

lemma column_or_nan_own:
  assumes "distinct (columns df)" and "(c, vs) \<in> set df"
  shows "column_or_nan H df c = vs"
proof -
  from assms have "map_of df c = Some vs"
    by (simp add: columns_def)
  then show ?thesis by (simp add: column_or_nan_def)
qed

lemma append_empty_frame:
  assumes "frame_ok df" and "nrows df = 0"
  shows "map (\<lambda>(c, vs). (c, vs @ column_or_nan H df c)) t = t"
proof -
  have "column_or_nan H df c = []" for c
    using column_or_nan_length [OF assms(1), of H c] assms(2) by simp
  then show ?thesis by (simp add: case_prod_unfold)
qed

lemma to_sql_append_existing:
  assumes "frame_ok df" and "to_sql_append H df (Some t) = Inr t'"
  shows "t' = map (\<lambda>(c, vs). (c, vs @ column_or_nan H df c)) t"
  using assms
  by (auto simp: to_sql_append_def append_empty_frame split: if_splits)

lemma to_sql_append_new:
  assumes "to_sql_append H df None = Inr t'"
  shows "t' = df \<and> df \<noteq> [] \<and> distinct (columns df)"
  using assms by (auto simp: to_sql_append_def split: if_splits)

lemma to_sql_append_again:
  assumes "frame_ok df" and "to_sql_append H df (Some t) = Inr t'"
  shows "to_sql_append H df (Some t') =
     Inr (map (\<lambda>(c, vs). (c, vs @ column_or_nan H df c @ column_or_nan H df c)) t)"
proof -
  have t': "t' = map (\<lambda>(c, vs). (c, vs @ column_or_nan H df c)) t"
    using assms by (rule to_sql_append_existing)
  have cols: "columns t' = columns t"
    by (simp add: t' columns_def case_prod_unfold comp_def)
  show ?thesis
  proof (cases "nrows df = 0")
    case True
    have "column_or_nan H df c = []" for c
      using column_or_nan_length [OF assms(1), of H c] True by simp
    then show ?thesis
      using True by (simp add: to_sql_append_def t' case_prod_unfold)
  next
    case False
    with assms(2) have "distinct (columns df) \<and> list_all (\<lambda>c. c \<in> set (columns t)) (columns df)"
      by (auto simp: to_sql_append_def split: if_splits)
    then show ?thesis
      using False by (simp add: to_sql_append_def cols) (simp add: t' case_prod_unfold comp_def)
  qed
qed

lemma to_sql_append_twice_new:
  assumes "frame_ok df" and "to_sql_append H df None = Inr t'"
  shows "to_sql_append H df (Some t') = Inr (map (\<lambda>(c, vs). (c, vs @ vs)) df)"
proof -
  from assms(2) have t': "t' = df" and d: "distinct (columns df)"
    using to_sql_append_new by blast+
  have own: "map (\<lambda>(c, vs). (c, vs @ column_or_nan H df c)) df = map (\<lambda>(c, vs). (c, vs @ vs)) df"
    using column_or_nan_own [OF d] by (intro map_cong) auto
  show ?thesis
  proof (cases "nrows df = 0")
    case True
    have "vs = []" if "(c, vs) \<in> set df" for c vs
      using frame_okD [OF assms(1) that] True by simp
    then have "map (\<lambda>(c, vs). (c, vs @ vs)) df = map (\<lambda>x. x) df"
      by (intro map_cong) auto
    then show ?thesis
      using True by (simp add: to_sql_append_def t')
  next
    case False
    then show ?thesis
      using d by (simp add: to_sql_append_def t' own list_all_iff)
  qed
qed

lemma nrows_appended:
  assumes "frame_ok df" and "t \<noteq> []"
  shows "nrows (map (\<lambda>(c, vs). (c, vs @ column_or_nan H df c)) t) = nrows t + nrows df"
  using assms by (cases t) (auto simp: nrows_def column_or_nan_length)

lemma nrows_doubled: "nrows (map (\<lambda>(c, vs). (c, vs @ vs)) df) = 2 * nrows df"
  by (cases df) (auto simp: nrows_def)


lemma load_to_db_success:
  assumes "databases W c = Some db" and "load_to_db H df c t W = (None, W1)"
  shows "\<exists>tab. to_sql_append H df (db t) = Inr tab \<and>
           W1 = W\<lparr>databases := (databases W)(c \<mapsto> db(t \<mapsto> tab))\<rparr>"
  using assms by (auto simp: load_to_db_def split: sum.splits)

lemma load_to_db_run:
  assumes "databases W c = Some db" and "to_sql_append H df (db t) = Inr tab"
  shows "load_to_db H df c t W = (None, W\<lparr>databases := (databases W)(c \<mapsto> db(t \<mapsto> tab))\<rparr>)"
  using assms by (simp add: load_to_db_def)

text \<open>
  Claim C9, as amended. On an open database and a well-formed frame, a load that fails
  changes nothing, and a load that succeeds changes only the table named: a table that
  exists keeps its rows, in place and in order, and gets the rows of the frame after them
  (so its row count grows by that of the frame); a table that does not exist is created
  with the rows of the frame. After a load that succeeds, loading the same frame again
  succeeds and appends the same rows once more: the frame's rows are in the table twice.
  For a table that did not exist before the first load, the row count after the second
  load is twice the count after the first.
\<close>

theorem load_to_db_appends:
  assumes ok: "frame_ok df" and conn: "databases W c = Some db"
  shows "(\<forall>e W'. load_to_db H df c t W = (Some e, W') \<longrightarrow> W' = W) \<and>
    (\<forall>W1. load_to_db H df c t W = (None, W1) \<longrightarrow>
       (\<forall>t'. t' \<noteq> t \<longrightarrow> table_of W1 c t' = db t') \<and>
       (\<forall>old. db t = Some old \<longrightarrow>
          table_of W1 c t = Some (map (\<lambda>(n, vs). (n, vs @ column_or_nan H df n)) old) \<and>
          (old \<noteq> [] \<longrightarrow> rows_in W1 c t = nrows old + nrows df)) \<and>
       (db t = None \<longrightarrow> table_of W1 c t = Some df \<and> rows_in W1 c t = nrows df) \<and>
       (\<exists>W2. load_to_db H df c t W1 = (None, W2) \<and>
          (\<forall>old. db t = Some old \<longrightarrow>
             table_of W2 c t =
               Some (map (\<lambda>(n, vs). (n, vs @ column_or_nan H df n @ column_or_nan H df n)) old) \<and>
             (old \<noteq> [] \<longrightarrow> rows_in W2 c t = nrows old + 2 * nrows df)) \<and>
          (db t = None \<longrightarrow>
             table_of W2 c t = Some (map (\<lambda>(n, vs). (n, vs @ vs)) df) \<and>
             rows_in W2 c t = 2 * rows_in W1 c t)))"
proof -
  have failed: "W' = W" if "load_to_db H df c t W = (Some e, W')" for e W'
    using that conn by (auto simp: load_to_db_def split: sum.splits)
  have loaded: "(\<forall>t'. t' \<noteq> t \<longrightarrow> table_of W1 c t' = db t') \<and>
       (\<forall>old. db t = Some old \<longrightarrow>
          table_of W1 c t = Some (map (\<lambda>(n, vs). (n, vs @ column_or_nan H df n)) old) \<and>
          (old \<noteq> [] \<longrightarrow> rows_in W1 c t = nrows old + nrows df)) \<and>
       (db t = None \<longrightarrow> table_of W1 c t = Some df \<and> rows_in W1 c t = nrows df) \<and>
       (\<exists>W2. load_to_db H df c t W1 = (None, W2) \<and>
          (\<forall>old. db t = Some old \<longrightarrow>
             table_of W2 c t =
               Some (map (\<lambda>(n, vs). (n, vs @ column_or_nan H df n @ column_or_nan H df n)) old) \<and>
             (old \<noteq> [] \<longrightarrow> rows_in W2 c t = nrows old + 2 * nrows df)) \<and>
          (db t = None \<longrightarrow>
             table_of W2 c t = Some (map (\<lambda>(n, vs). (n, vs @ vs)) df) \<and>
             rows_in W2 c t = 2 * rows_in W1 c t))"
    if run: "load_to_db H df c t W = (None, W1)" for W1
  proof -
    from load_to_db_success [OF conn run] obtain tab
      where tab: "to_sql_append H df (db t) = Inr tab"
        and W1: "W1 = W\<lparr>databases := (databases W)(c \<mapsto> db(t \<mapsto> tab))\<rparr>"
      by blast
    have conn1: "databases W1 c = Some (db(t \<mapsto> tab))"
      by (simp add: W1)
    have t1: "table_of W1 c t = Some tab"
      by (simp add: table_of_def conn1)
    have others: "table_of W1 c t' = db t'" if "t' \<noteq> t" for t'
      using that by (simp add: table_of_def conn1)
    show ?thesis
    proof (cases "db t")
      case None
      from tab None have new: "tab = df" "df \<noteq> []" "distinct (columns df)"
        using to_sql_append_new [of H df tab] by simp_all
      have again: "to_sql_append H df ((db(t \<mapsto> tab)) t) = Inr (map (\<lambda>(n, vs). (n, vs @ vs)) df)"
        using to_sql_append_twice_new [OF ok, of H tab] tab None by simp
      let ?W2 = "W1\<lparr>databases := (databases W1)(c \<mapsto> (db(t \<mapsto> tab))
                   (t \<mapsto> map (\<lambda>(n, vs). (n, vs @ vs)) df))\<rparr>"
      have run2: "load_to_db H df c t W1 = (None, ?W2)"
        using conn1 again by (rule load_to_db_run)
      have t2: "table_of ?W2 c t = Some (map (\<lambda>(n, vs). (n, vs @ vs)) df)"
        by (simp add: table_of_def)
      have r1: "rows_in W1 c t = nrows df"
        unfolding rows_in_def t1 by (simp add: new(1))
      have r2: "rows_in ?W2 c t = 2 * nrows df"
        unfolding rows_in_def t2 by (simp add: nrows_doubled)
      have first: "table_of W1 c t = Some df"
        using t1 new(1) by simp
      from None first r1 r2 others run2 t2 show ?thesis
        by (intro conjI allI impI exI [of _ ?W2]) simp_all
    next
      case (Some old)
      have tab_eq: "tab = map (\<lambda>(n, vs). (n, vs @ column_or_nan H df n)) old"
        using Some tab to_sql_append_existing [OF ok, of H old tab] by simp
      have again: "to_sql_append H df ((db(t \<mapsto> tab)) t) =
          Inr (map (\<lambda>(n, vs). (n, vs @ column_or_nan H df n @ column_or_nan H df n)) old)"
        using to_sql_append_again [OF ok, of H old tab] tab Some by simp
      let ?tab2 = "map (\<lambda>(n, vs). (n, vs @ column_or_nan H df n @ column_or_nan H df n)) old"
      let ?W2 = "W1\<lparr>databases := (databases W1)(c \<mapsto> (db(t \<mapsto> tab))(t \<mapsto> ?tab2))\<rparr>"
      have run2: "load_to_db H df c t W1 = (None, ?W2)"
        using conn1 again by (rule load_to_db_run)
      have t2: "table_of ?W2 c t = Some ?tab2"
        by (simp add: table_of_def)
      have n1: "rows_in W1 c t = nrows old + nrows df" if "old \<noteq> []"
        unfolding rows_in_def t1 using that by (simp add: tab_eq nrows_appended [OF ok])
      have len2: "nrows ?tab2 = nrows old + 2 * nrows df" if "old \<noteq> []"
        using that by (cases old) (auto simp: nrows_def column_or_nan_length [OF ok])
      have n2: "rows_in ?W2 c t = nrows old + 2 * nrows df" if "old \<noteq> []"
        unfolding rows_in_def t2 using that by (simp add: len2)
      have first: "table_of W1 c t = Some (map (\<lambda>(n, vs). (n, vs @ column_or_nan H df n)) old)"
        using t1 tab_eq by simp
      from Some first others run2 t2 n1 n2 show ?thesis
        by (intro conjI allI impI exI [of _ ?W2]) simp_all
    qed
  qed
  show ?thesis
    using failed loaded by blast
qed


lemmas db_defs = load_to_db_def to_sql_append_def nrows_def columns_def column_or_nan_def
  table_of_def rows_in_def bank_result_def

text \<open>
  Claim C9 as stated says that for every table the row count doubles when a frame is
  loaded twice. A table that holds one row and a frame of one row: the loads succeed and
  the table has 2 rows, then 3.
\<close>

theorem row_count_not_doubled_counterexample:
  "rows_in loaded_world ''Banks.db'' ''Largest_banks'' = 1 \<and>
   fst (load_to_db exact_host bank_result ''Banks.db'' ''Largest_banks'' loaded_world) = None \<and>
   rows_in (snd (load_to_db exact_host bank_result ''Banks.db'' ''Largest_banks'' loaded_world))
     ''Banks.db'' ''Largest_banks'' = 2 \<and>
   fst (load_to_db exact_host bank_result ''Banks.db'' ''Largest_banks''
     (snd (load_to_db exact_host bank_result ''Banks.db'' ''Largest_banks'' loaded_world))) = None \<and>
   rows_in (snd (load_to_db exact_host bank_result ''Banks.db'' ''Largest_banks''
     (snd (load_to_db exact_host bank_result ''Banks.db'' ''Largest_banks'' loaded_world))))
     ''Banks.db'' ''Largest_banks'' = 3 \<and>
   rows_in (snd (load_to_db exact_host bank_result ''Banks.db'' ''Largest_banks''
     (snd (load_to_db exact_host bank_result ''Banks.db'' ''Largest_banks'' loaded_world))))
     ''Banks.db'' ''Largest_banks'' \<noteq>
   2 * rows_in (snd (load_to_db exact_host bank_result ''Banks.db'' ''Largest_banks'' loaded_world))
     ''Banks.db'' ''Largest_banks''"
  by (simp add: db_defs loaded_world_def)

theorem load_to_db_appends_witness:
  "frame_ok bank_result \<and>
   databases connected_world ''Banks.db'' = Some Map.empty \<and>
   fst (load_to_db exact_host bank_result ''Banks.db'' ''Largest_banks'' connected_world) = None \<and>
   rows_in (snd (load_to_db exact_host bank_result ''Banks.db'' ''Largest_banks'' connected_world))
     ''Banks.db'' ''Largest_banks'' = 1 \<and>
   (\<exists>W2. load_to_db exact_host bank_result ''Banks.db'' ''Largest_banks''
           (snd (load_to_db exact_host bank_result ''Banks.db'' ''Largest_banks'' connected_world)) =
         (None, W2) \<and>
      table_of W2 ''Banks.db'' ''Largest_banks'' =
        Some [(''Name'', [Str ''Bank A'', Str ''Bank A'']),
              (''MC_USD_Billion'', [Num (Some 100000), Num (Some 100000)]),
              (''MC_GBP_Billion'', [Num (Some 80000), Num (Some 80000)]),
              (''MC_EUR_Billion'', [Num (Some 90000), Num (Some 90000)]),
              (''MC_INR_Billion'', [Num (Some 8000000), Num (Some 8000000)])] \<and>
      rows_in W2 ''Banks.db'' ''Largest_banks'' = 2)"
proof -
  let ?W1 = "snd (load_to_db exact_host bank_result ''Banks.db'' ''Largest_banks'' connected_world)"
  have ok: "frame_ok bank_result"
    by (simp add: frame_ok_def nrows_def bank_result_def)
  have conn: "databases connected_world ''Banks.db'' = Some Map.empty"
    by (simp add: connected_world_def)
  have first: "fst (load_to_db exact_host bank_result ''Banks.db'' ''Largest_banks''
      connected_world) = None"
    by (simp add: db_defs connected_world_def)
  then have run: "load_to_db exact_host bank_result ''Banks.db'' ''Largest_banks'' connected_world =
      (None, ?W1)"
    by (simp add: prod_eq_iff)
  have n1: "rows_in ?W1 ''Banks.db'' ''Largest_banks'' = 1"
    by (simp add: db_defs connected_world_def)
  have doubled: "map (\<lambda>(n, vs). (n, vs @ vs)) bank_result =
        [(''Name'', [Str ''Bank A'', Str ''Bank A'']),
         (''MC_USD_Billion'', [Num (Some 100000), Num (Some 100000)]),
         (''MC_GBP_Billion'', [Num (Some 80000), Num (Some 80000)]),
         (''MC_EUR_Billion'', [Num (Some 90000), Num (Some 90000)]),
         (''MC_INR_Billion'', [Num (Some 8000000), Num (Some 8000000)])]"
    by (simp add: bank_result_def)
  from load_to_db_appends [OF ok conn, of exact_host "''Largest_banks''"] run
  obtain W2 where
    "load_to_db exact_host bank_result ''Banks.db'' ''Largest_banks'' ?W1 = (None, W2)"
    "table_of W2 ''Banks.db'' ''Largest_banks'' = Some (map (\<lambda>(n, vs). (n, vs @ vs)) bank_result)"
    "rows_in W2 ''Banks.db'' ''Largest_banks'' = 2 * rows_in ?W1 ''Banks.db'' ''Largest_banks''"
    by auto
  then show ?thesis
    using ok conn first n1 doubled by auto
qed

section \<open>The driver\<close>

lemma log_progress_log [simp]:
  "log_file (log_progress ts m W) = log_file W @ log_line ts m"
  by (simp add: log_progress_def log_line_def)

lemma print_log [simp]: "log_file (print x W) = log_file W"
  by (simp add: print_def)

lemma load_to_csv_log: "load_to_csv H df p W = (r, W') \<Longrightarrow> log_file W' = log_file W"
  by (auto simp: load_to_csv_def split: if_splits)

lemma connect_log: "connect c W = (r, W') \<Longrightarrow> log_file W' = log_file W"
  by (auto simp: connect_def split: if_splits option.splits)

lemma load_to_db_log: "load_to_db H df c t W = (r, W') \<Longrightarrow> log_file W' = log_file W"
  by (auto simp: load_to_db_def split: option.splits sum.splits)

lemma run_query_log: "run_query H q c W = (r, W') \<Longrightarrow> log_file W' = log_file W"
  by (auto simp: run_query_def Let_def split: option.splits sum.splits)

lemma main_load_log:
  assumes "main_load H now data df W = (r, W')"
  shows "\<exists>k. 3 \<le> k \<and> k \<le> 7 \<and>
           log_file W' = log_file W @ concat (drop 2 (take k (milestone_lines now))) \<and>
           (r = None \<longleftrightarrow> k = 7)"
proof -
  let ?Wa = "log_progress (now 2) ''Data transformation complete. Initiating loading process'' W"
  obtain r1 W1 where s1: "load_to_csv H df (output_path data) ?Wa = (r1, W1)"
    by (cases "load_to_csv H df (output_path data) ?Wa")
  have l1: "log_file W1 = log_file ?Wa"
    using s1 by (rule load_to_csv_log)
  show ?thesis
  proof (cases r1)
    case (Some e)
    with assms s1 have "r = Some e" "W' = W1"
      by (simp_all add: main_load_def then_run_def)
    with l1 show ?thesis
      by (intro exI [of _ 3]) (simp add: milestone_lines_def)
  next
    case None
    let ?Wb = "log_progress (now 3) ''Data saved to CSV file'' W1"
    obtain r2 W2 where s2: "connect (db_name data) ?Wb = (r2, W2)"
      by (cases "connect (db_name data) ?Wb")
    have l2: "log_file W2 = log_file ?Wb"
      using s2 by (rule connect_log)
    show ?thesis
    proof (cases r2)
      case (Some e)
      with assms s1 s2 None have "r = Some e" "W' = W2"
        by (simp_all add: main_load_def then_run_def)
      with l1 l2 show ?thesis
        by (intro exI [of _ 4]) (simp add: milestone_lines_def)
    next
      case c2: None
      let ?Wc = "log_progress (now 4) ''SQL Connection initiated.'' W2"
      obtain r3 W3 where s3: "load_to_db H df (db_name data) (table_name data) ?Wc = (r3, W3)"
        by (cases "load_to_db H df (db_name data) (table_name data) ?Wc")
      have l3: "log_file W3 = log_file ?Wc"
        using s3 by (rule load_to_db_log)
      show ?thesis
      proof (cases r3)
        case (Some e)
        with assms s1 s2 s3 None c2 have "r = Some e" "W' = W3"
          by (simp_all add: main_load_def then_run_def)
        with l1 l2 l3 show ?thesis
          by (intro exI [of _ 5]) (simp add: milestone_lines_def)
      next
        case c3: None
        let ?Wd = "log_progress (now 5)
          ''Data loaded to Database as table. Running the query'' W3"
        obtain r4 W4 where s4: "run_query H query_statement (db_name data) ?Wd = (r4, W4)"
          by (cases "run_query H query_statement (db_name data) ?Wd")
        have l4: "log_file W4 = log_file ?Wd"
          using s4 by (rule run_query_log)
        show ?thesis
        proof (cases r4)
          case (Some e)
          with assms s1 s2 s3 s4 None c2 c3 have "r = Some e" "W' = W4"
            by (simp_all add: main_load_def then_run_def)
          with l1 l2 l3 l4 show ?thesis
            by (intro exI [of _ 6]) (simp add: milestone_lines_def)
        next
          case c4: None
          with assms s1 s2 s3 s4 None c2 c3 have "r = None"
            "W' = log_progress (now 6) ''Process Complete.'' W4"
            by (simp_all add: main_load_def then_run_def)
          with l1 l2 l3 l4 show ?thesis
            by (intro exI [of _ 7]) (simp add: milestone_lines_def)
        qed
      qed
    qed
  qed
qed


lemma writable_log_progress [simp]: "writable (log_progress ts m W) = writable W"
  by (simp add: log_progress_def)

lemma writable_print [simp]: "writable (print x W) = writable W"
  by (simp add: print_def)

lemma databases_log_progress [simp]: "databases (log_progress ts m W) = databases W"
  by (simp add: log_progress_def)

lemma databases_print [simp]: "databases (print x W) = databases W"
  by (simp add: print_def)

lemma stdout_log_progress [simp]: "stdout (log_progress ts m W) = stdout W"
  by (simp add: log_progress_def)

lemma stdout_print [simp]: "stdout (print x W) = stdout W @ [x]"
  by (simp add: print_def)

lemma bank_extract:
  "extract_df exact_host bank_env ''http://banks.example'' [''Name'', ''MC_USD_Billion''] =
     Inr bank_frame"
  by (simp add: extract_df_def page_defs extract_defs bank_frame_def)

lemma bank_transform:
  "transform exact_host bank_env bank_frame ''exchange_rate.csv'' = Inr bank_result"
proof -
  let ?d = "map_of (rev (zip [Str ''GBP'', Str ''EUR'', Str ''INR'']
             [Num (Some (4 / 5)), Num (Some (9 / 10)), Num (Some 80 :: rat option)]))"
  have rd: "read_csv bank_env ''exchange_rate.csv'' = Inr rates"
    by (simp add: bank_env_def env_of_def)
  have d: "currency_exchange_dict rates = Inr ?d"
    by (simp add: currency_exchange_dict_def rates_def)
  have g: "?d (Str ''GBP'') = Some (Num (Some (4 / 5)))" by simp
  have e: "?d (Str ''EUR'') = Some (Num (Some (9 / 10)))" by simp
  have r: "?d (Str ''INR'') = Some (Num (Some 80))" by simp
  have col: "get_column bank_frame ''MC_USD_Billion'' = Inr [Str ''100,000\<newline>'']"
    by (simp add: get_column_def bank_frame_def)
  have dec: "decimal ''100000'' = Some 100000"
    by (simp add: decimal_def digit_val_def)
  have clean: "try_map (clean_usd exact_host) [Str ''100,000\<newline>''] = Inr [Some 100000]"
    by (simp add: clean_usd_Str spec_cleaned_def py_float_def exact_host_def dec)
  have c1: "converted exact_host (Some (4 / 5)) [Some 100000] = [Num (Some 80000)]"
    by (simp add: converted_def exact_host_def round_half_even_def)
  have c2: "converted exact_host (Some (9 / 10)) [Some 100000] = [Num (Some 90000)]"
    by (simp add: converted_def exact_host_def round_half_even_def)
  have c3: "converted exact_host (Some 80) [Some 100000] = [Num (Some 8000000)]"
    by (simp add: converted_def exact_host_def round_half_even_def)
  show ?thesis
    by (simp add: transform_result [OF rd d g e r col clean] c1 c2 c3)
      (simp add: set_column_def Let_def columns_def bank_frame_def bank_result_def)
qed

lemma bank_avg: "sql_avg exact_host [Num (Some 80000)] = Num (Some 80000)"
  by (simp add: exact_host_def)

lemma bank_main_load:
  assumes "writable W = (\<lambda>p. True)" and "databases W = Map.empty"
    and "db_name data = ''Banks.db''"
  shows "fst (main_load exact_host now data bank_result W) =
           (if table_name data = ''Largest_banks'' then None else Some DatabaseError) \<and>
         stdout (snd (main_load exact_host now data bank_result W)) =
           stdout W @ [PText ''SELECT AVG(MC_GBP_Billion) FROM Largest_banks''] @
           (if table_name data = ''Largest_banks''
            then [PFrame [(''AVG(MC_GBP_Billion)'', [Num (Some 80000)])]] else []) \<and>
         table_of (snd (main_load exact_host now data bank_result W)) ''Banks.db'' =
           [table_name data \<mapsto> bank_result]"
proof -
  have new: "to_sql_append exact_host bank_result None = Inr bank_result"
    by (simp add: to_sql_append_def bank_result_def columns_def)
  have gbp: "map_of bank_result ''MC_GBP_Billion'' = Some [Num (Some 80000)]"
    by (simp add: bank_result_def)
  show ?thesis
    using assms
    by (simp add: main_load_def then_run_def load_to_csv_def connect_def load_to_db_def
        run_query_def query_statement_def new gbp bank_avg table_of_def Let_def fun_eq_iff)
qed


lemma bank_run:
  "fst (main exact_host bank_env now (Inr (bank_config\<lparr>table_name := t\<rparr>)) fresh_world) =
     (if t = ''Largest_banks'' then None else Some DatabaseError) \<and>
   stdout (snd (main exact_host bank_env now (Inr (bank_config\<lparr>table_name := t\<rparr>)) fresh_world)) =
     [PFrame bank_frame, PFrame bank_result,
      PText ''SELECT AVG(MC_GBP_Billion) FROM Largest_banks''] @
     (if t = ''Largest_banks''
      then [PFrame [(''AVG(MC_GBP_Billion)'', [Num (Some 80000)])]] else []) \<and>
   table_of (snd (main exact_host bank_env now (Inr (bank_config\<lparr>table_name := t\<rparr>)) fresh_world))
     ''Banks.db'' = [t \<mapsto> bank_result]"
proof -
  let ?data = "bank_config\<lparr>table_name := t\<rparr>"
  let ?W = "print (PFrame bank_result)
     (log_progress (now 1) ''Data extraction complete. Initiating Transformation process''
       (print (PFrame bank_frame)
         (log_progress (now 0) ''Preliminaries complete. Initiating ETL process'' fresh_world)))"
  have m: "main exact_host bank_env now (Inr ?data) fresh_world =
      main_load exact_host now ?data bank_result ?W"
    by (simp add: main_def bank_config_def bank_extract bank_transform)
  have w: "writable ?W = (\<lambda>p. True)" "databases ?W = Map.empty"
    by (simp_all add: fresh_world_def)
  have out: "stdout fresh_world = []"
    by (simp add: fresh_world_def)
  have d: "db_name ?data = ''Banks.db''" "table_name ?data = t"
    by (simp_all add: bank_config_def)
  show ?thesis
    using bank_main_load [OF w d(1), of now] by (simp add: m out d(2))
qed

lemma concat_take_split:
  assumes "2 \<le> k"
  shows "concat (take k xs) = concat (take 2 xs) @ concat (drop 2 (take k xs))"
proof -
  have "take 2 (take k xs) @ drop 2 (take k xs) = take k xs"
    by (rule append_take_drop_id)
  moreover have "take 2 (take k xs) = take 2 xs"
    using assms by (simp add: min_def)
  ultimately have "take k xs = take 2 xs @ drop 2 (take k xs)" by simp
  then have "concat (take k xs) = concat (take 2 xs @ drop 2 (take k xs))" by simp
  then show ?thesis by simp
qed

lemma main_log:
  assumes "main H E now (Inr data) W = (r, W')"
  shows "\<exists>k. 1 \<le> k \<and> k \<le> 7 \<and>
           log_file W' = log_file W @ concat (take k (milestone_lines now)) \<and>
           (r = None \<longleftrightarrow> k = 7)"
proof (cases "extract_df H E (url data) (table_attributes data)")
  case (Inl e)
  with assms have "r = Some e"
    "W' = log_progress (now 0) ''Preliminaries complete. Initiating ETL process'' W"
    by (simp_all add: main_def)
  then show ?thesis
    by (intro exI [of _ 1]) (simp add: milestone_lines_def)
next
  case (Inr df)
  let ?W2 = "log_progress (now 1) ''Data extraction complete. Initiating Transformation process''
     (print (PFrame df)
       (log_progress (now 0) ''Preliminaries complete. Initiating ETL process'' W))"
  have two: "log_file ?W2 = log_file W @ concat (take 2 (milestone_lines now))"
    by (simp add: milestone_lines_def)
  show ?thesis
  proof (cases "transform H E df (csv_path data)")
    case (Inl e)
    with assms Inr have "r = Some e" "W' = ?W2"
      by (simp_all add: main_def)
    with two show ?thesis
      by (intro exI [of _ 2]) simp
  next
    case df': (Inr df')
    with assms Inr have "main_load H now data df' (print (PFrame df') ?W2) = (r, W')"
      by (simp add: main_def)
    from main_load_log [OF this] obtain k where k: "3 \<le> k" "k \<le> 7"
      "log_file W' = log_file (print (PFrame df') ?W2) @
         concat (drop 2 (take k (milestone_lines now)))"
      "r = None \<longleftrightarrow> k = 7"
      by blast
    have "log_file W' = log_file W @ concat (take k (milestone_lines now))"
      using k(1) k(3) two concat_take_split [of k "milestone_lines now"] by simp
    with k show ?thesis
      by (intro exI [of _ k]) simp
  qed
qed


lemma main_load_stages:
  assumes run: "main_load H now data df W = (r, W')"
  shows "(\<not> writable W (output_path data) \<longrightarrow>
        r = Some OSError \<and>
        log_file W' = log_file W @ concat (drop 2 (take 3 (milestone_lines now)))) \<and>
     (writable W (output_path data) \<and> \<not> writable W (db_name data) \<longrightarrow>
        r = Some DatabaseError \<and>
        log_file W' = log_file W @ concat (drop 2 (take 4 (milestone_lines now)))) \<and>
     (\<forall>e. writable W (output_path data) \<and> writable W (db_name data) \<and>
        to_sql_append H df (opened W (db_name data) (table_name data)) = Inl e \<longrightarrow>
        r = Some e \<and>
        log_file W' = log_file W @ concat (drop 2 (take 5 (milestone_lines now)))) \<and>
     (\<forall>t e. writable W (output_path data) \<and> writable W (db_name data) \<and>
        to_sql_append H df (opened W (db_name data) (table_name data)) = Inr t \<and>
        read_sql H query_statement ((opened W (db_name data))(table_name data \<mapsto> t)) = Inl e \<longrightarrow>
        r = Some e \<and>
        log_file W' = log_file W @ concat (drop 2 (take 6 (milestone_lines now)))) \<and>
     (\<forall>t q. writable W (output_path data) \<and> writable W (db_name data) \<and>
        to_sql_append H df (opened W (db_name data) (table_name data)) = Inr t \<and>
        read_sql H query_statement ((opened W (db_name data))(table_name data \<mapsto> t)) = Inr q \<longrightarrow>
        r = None \<and>
        log_file W' = log_file W @ concat (drop 2 (take 7 (milestone_lines now))))"
proof -
  have at_csv: "r = Some OSError \<and>
      log_file W' = log_file W @ concat (drop 2 (take 3 (milestone_lines now)))"
    if "\<not> writable W (output_path data)"
    using run that
    by (auto simp: main_load_def then_run_def load_to_csv_def milestone_lines_def)
  have at_connect: "r = Some DatabaseError \<and>
      log_file W' = log_file W @ concat (drop 2 (take 4 (milestone_lines now)))"
    if "writable W (output_path data)" "\<not> writable W (db_name data)"
    using run that
    by (auto simp: main_load_def then_run_def load_to_csv_def connect_def milestone_lines_def)
  have at_load: "r = Some e \<and>
      log_file W' = log_file W @ concat (drop 2 (take 5 (milestone_lines now)))"
    if "writable W (output_path data)" "writable W (db_name data)"
      "to_sql_append H df (opened W (db_name data) (table_name data)) = Inl e" for e
    using run that
    by (auto simp: main_load_def then_run_def load_to_csv_def connect_def load_to_db_def
        opened_def milestone_lines_def split: option.splits)
  have at_query: "r = Some e \<and>
      log_file W' = log_file W @ concat (drop 2 (take 6 (milestone_lines now)))"
    if "writable W (output_path data)" "writable W (db_name data)"
      "to_sql_append H df (opened W (db_name data) (table_name data)) = Inr t"
      "read_sql H query_statement ((opened W (db_name data))(table_name data \<mapsto> t)) = Inl e"
    for t e
    using run that
    by (auto simp: main_load_def then_run_def load_to_csv_def connect_def load_to_db_def
        run_query_def Let_def opened_def milestone_lines_def split: option.splits)
  have at_end: "r = None \<and>
      log_file W' = log_file W @ concat (drop 2 (take 7 (milestone_lines now)))"
    if "writable W (output_path data)" "writable W (db_name data)"
      "to_sql_append H df (opened W (db_name data) (table_name data)) = Inr t"
      "read_sql H query_statement ((opened W (db_name data))(table_name data \<mapsto> t)) = Inr q"
    for t q
    using run that
    by (auto simp: main_load_def then_run_def load_to_csv_def connect_def load_to_db_def
        run_query_def Let_def opened_def milestone_lines_def split: option.splits)
  show ?thesis
    using at_csv at_connect at_load at_query at_end by blast
qed

lemma main_stages:
  assumes run: "main H E now (Inr data) W = (r, W')"
    and ex: "extract_df H E (url data) (table_attributes data) = Inr df"
    and tr: "transform H E df (csv_path data) = Inr df'"
  shows "\<exists>W2. main_load H now data df' W2 = (r, W') \<and> writable W2 = writable W \<and>
     opened W2 = opened W \<and>
     log_file W2 = log_file W @ concat (take 2 (milestone_lines now))"
proof -
  let ?W2 = "print (PFrame df')
     (log_progress (now 1) ''Data extraction complete. Initiating Transformation process''
       (print (PFrame df)
         (log_progress (now 0) ''Preliminaries complete. Initiating ETL process'' W)))"
  have "main_load H now data df' ?W2 = (r, W')"
    using run ex tr by (simp add: main_def)
  moreover have "writable ?W2 = writable W" by simp
  moreover have "opened ?W2 = opened W" by (simp add: opened_def fun_eq_iff)
  moreover have "log_file ?W2 = log_file W @ concat (take 2 (milestone_lines now))"
    by (simp add: milestone_lines_def)
  ultimately show ?thesis by blast
qed

lemma take_two_more:
  assumes "2 \<le> k"
  shows "(xs @ concat (take 2 ys)) @ concat (drop 2 (take k ys)) = xs @ concat (take k ys)"
  using concat_take_split [OF assms, of ys] by simp

text \<open>
  Claim C3, as amended. Once the configuration is read, the driver logs seven milestone
  messages, not eight, in one fixed order, each between two stages: a run that completes
  appends exactly the seven lines of \<open>milestone_lines\<close> to the log, and a run that an
  exception ends has appended the first \<open>k\<close> of them, \<open>1 \<le> k < 7\<close>, where \<open>k\<close> says how far
  it got: one line when \<open>extract\<close> raises, two when \<open>transform\<close> raises, three when the CSV
  file cannot be written, four when the database cannot be opened, five when the load
  into the table fails, six when the query fails, and seven when the query gives a result.
\<close>

theorem driver_logs_seven_milestones:
  assumes run: "main H E now (Inr data) W = (r, W')"
  shows "length (milestone_lines now) = 7 \<and>
     (r = None \<longrightarrow> log_file W' = log_file W @ concat (milestone_lines now)) \<and>
     (\<exists>k. 1 \<le> k \<and> k \<le> 7 \<and>
          log_file W' = log_file W @ concat (take k (milestone_lines now)) \<and>
          (r = None \<longleftrightarrow> k = 7)) \<and>
     (\<forall>e. extract_df H E (url data) (table_attributes data) = Inl e \<longrightarrow>
          r = Some e \<and> log_file W' = log_file W @ concat (take 1 (milestone_lines now))) \<and>
     (\<forall>df e. extract_df H E (url data) (table_attributes data) = Inr df \<and>
          transform H E df (csv_path data) = Inl e \<longrightarrow>
          r = Some e \<and> log_file W' = log_file W @ concat (take 2 (milestone_lines now))) \<and>
     (\<forall>df df'. extract_df H E (url data) (table_attributes data) = Inr df \<and>
          transform H E df (csv_path data) = Inr df' \<and> \<not> writable W (output_path data) \<longrightarrow>
          r = Some OSError \<and>
          log_file W' = log_file W @ concat (take 3 (milestone_lines now))) \<and>
     (\<forall>df df'. extract_df H E (url data) (table_attributes data) = Inr df \<and>
          transform H E df (csv_path data) = Inr df' \<and> writable W (output_path data) \<and>
          \<not> writable W (db_name data) \<longrightarrow>
          r = Some DatabaseError \<and>
          log_file W' = log_file W @ concat (take 4 (milestone_lines now))) \<and>
     (\<forall>df df' e. extract_df H E (url data) (table_attributes data) = Inr df \<and>
          transform H E df (csv_path data) = Inr df' \<and> writable W (output_path data) \<and>
          writable W (db_name data) \<and>
          to_sql_append H df' (opened W (db_name data) (table_name data)) = Inl e \<longrightarrow>
          r = Some e \<and>
          log_file W' = log_file W @ concat (take 5 (milestone_lines now))) \<and>
     (\<forall>df df' t e. extract_df H E (url data) (table_attributes data) = Inr df \<and>
          transform H E df (csv_path data) = Inr df' \<and> writable W (output_path data) \<and>
          writable W (db_name data) \<and>
          to_sql_append H df' (opened W (db_name data) (table_name data)) = Inr t \<and>
          read_sql H query_statement ((opened W (db_name data))(table_name data \<mapsto> t)) =
            Inl e \<longrightarrow>
          r = Some e \<and>
          log_file W' = log_file W @ concat (take 6 (milestone_lines now))) \<and>
     (\<forall>df df' t q. extract_df H E (url data) (table_attributes data) = Inr df \<and>
          transform H E df (csv_path data) = Inr df' \<and> writable W (output_path data) \<and>
          writable W (db_name data) \<and>
          to_sql_append H df' (opened W (db_name data) (table_name data)) = Inr t \<and>
          read_sql H query_statement ((opened W (db_name data))(table_name data \<mapsto> t)) =
            Inr q \<longrightarrow>
          r = None \<and>
          log_file W' = log_file W @ concat (take 7 (milestone_lines now)))"
proof -
  have seven: "length (milestone_lines now) = 7"
    by (simp add: milestone_lines_def)
  from main_log [OF run] obtain k where k: "1 \<le> k" "k \<le> 7"
    "log_file W' = log_file W @ concat (take k (milestone_lines now))" "r = None \<longleftrightarrow> k = 7"
    by blast
  have complete: "log_file W' = log_file W @ concat (milestone_lines now)" if "r = None"
    using that k seven by simp
  have at_extract: "r = Some e \<and> log_file W' = log_file W @ concat (take 1 (milestone_lines now))"
    if "extract_df H E (url data) (table_attributes data) = Inl e" for e
    using run that by (auto simp: main_def milestone_lines_def)
  have at_transform: "r = Some e \<and>
      log_file W' = log_file W @ concat (take 2 (milestone_lines now))"
    if "extract_df H E (url data) (table_attributes data) = Inr df"
      "transform H E df (csv_path data) = Inl e" for df e
    using run that by (auto simp: main_def milestone_lines_def)
  have at_csv: "r = Some OSError \<and>
      log_file W' = log_file W @ concat (take 3 (milestone_lines now))"
    if ex: "extract_df H E (url data) (table_attributes data) = Inr df"
      and tr: "transform H E df (csv_path data) = Inr df'"
      and st: "\<not> writable W (output_path data)"
    for df df'
  proof -
    from main_stages [OF run ex tr] obtain W2
      where W2: "main_load H now data df' W2 = (r, W')" "writable W2 = writable W"
        "opened W2 = opened W"
        "log_file W2 = log_file W @ concat (take 2 (milestone_lines now))"
      by blast
    from main_load_stages [OF W2(1)] st show ?thesis
      by (simp add: W2(2-4) take_two_more del: append_assoc)
  qed
  have at_connect: "r = Some DatabaseError \<and>
      log_file W' = log_file W @ concat (take 4 (milestone_lines now))"
    if ex: "extract_df H E (url data) (table_attributes data) = Inr df"
      and tr: "transform H E df (csv_path data) = Inr df'"
      and st: "writable W (output_path data)" "\<not> writable W (db_name data)"
    for df df'
  proof -
    from main_stages [OF run ex tr] obtain W2
      where W2: "main_load H now data df' W2 = (r, W')" "writable W2 = writable W"
        "opened W2 = opened W"
        "log_file W2 = log_file W @ concat (take 2 (milestone_lines now))"
      by blast
    from main_load_stages [OF W2(1)] st show ?thesis
      by (simp add: W2(2-4) take_two_more del: append_assoc)
  qed
  have at_load: "r = Some e \<and>
      log_file W' = log_file W @ concat (take 5 (milestone_lines now))"
    if ex: "extract_df H E (url data) (table_attributes data) = Inr df"
      and tr: "transform H E df (csv_path data) = Inr df'"
      and st: "writable W (output_path data)" "writable W (db_name data)"
        "to_sql_append H df' (opened W (db_name data) (table_name data)) = Inl e"
    for df df' e
  proof -
    from main_stages [OF run ex tr] obtain W2
      where W2: "main_load H now data df' W2 = (r, W')" "writable W2 = writable W"
        "opened W2 = opened W"
        "log_file W2 = log_file W @ concat (take 2 (milestone_lines now))"
      by blast
    from main_load_stages [OF W2(1)] st show ?thesis
      by (simp add: W2(2-4) take_two_more del: append_assoc)
  qed
  have at_query: "r = Some e \<and>
      log_file W' = log_file W @ concat (take 6 (milestone_lines now))"
    if ex: "extract_df H E (url data) (table_attributes data) = Inr df"
      and tr: "transform H E df (csv_path data) = Inr df'"
      and st: "writable W (output_path data)" "writable W (db_name data)"
        "to_sql_append H df' (opened W (db_name data) (table_name data)) = Inr t"
        "read_sql H query_statement ((opened W (db_name data))(table_name data \<mapsto> t)) = Inl e"
    for df df' t e
  proof -
    from main_stages [OF run ex tr] obtain W2
      where W2: "main_load H now data df' W2 = (r, W')" "writable W2 = writable W"
        "opened W2 = opened W"
        "log_file W2 = log_file W @ concat (take 2 (milestone_lines now))"
      by blast
    from main_load_stages [OF W2(1)] st show ?thesis
      by (simp add: W2(2-4) take_two_more del: append_assoc)
  qed
  have at_end: "r = None \<and>
      log_file W' = log_file W @ concat (take 7 (milestone_lines now))"
    if ex: "extract_df H E (url data) (table_attributes data) = Inr df"
      and tr: "transform H E df (csv_path data) = Inr df'"
      and st: "writable W (output_path data)" "writable W (db_name data)"
        "to_sql_append H df' (opened W (db_name data) (table_name data)) = Inr t"
        "read_sql H query_statement ((opened W (db_name data))(table_name data \<mapsto> t)) = Inr q"
    for df df' t q
  proof -
    from main_stages [OF run ex tr] obtain W2
      where W2: "main_load H now data df' W2 = (r, W')" "writable W2 = writable W"
        "opened W2 = opened W"
        "log_file W2 = log_file W @ concat (take 2 (milestone_lines now))"
      by blast
    from main_load_stages [OF W2(1)] st show ?thesis
      by (simp add: W2(2-4) take_two_more del: append_assoc)
  qed
  show ?thesis
    using seven complete k at_extract at_transform at_csv at_connect at_load at_query at_end
    by blast
qed

lemma bank_config_table: "bank_config\<lparr>table_name := ''Largest_banks''\<rparr> = bank_config"
  by (simp add: bank_config_def)

lemma clock_lines: "line_count (concat (milestone_lines clock)) = 7"
proof -
  have digits: "map string_of_nat [0, 1, 2, 3, 4, 5, 6] = [''0'', ''1'', ''2'', ''3'', ''4'', ''5'', ''6'']"
    by code_simp
  then show ?thesis
    by (simp add: milestone_lines_def log_line_def clock_def line_count_def)
qed

theorem driver_logs_seven_milestones_witness:
  "fst (main exact_host bank_env clock (Inr bank_config) fresh_world) = None \<and>
   log_file (snd (main exact_host bank_env clock (Inr bank_config) fresh_world)) =
     concat (milestone_lines clock) \<and>
   fst (main exact_host bank_env clock (Inr other_config) fresh_world) = Some DatabaseError \<and>
   log_file (snd (main exact_host bank_env clock (Inr other_config) fresh_world)) =
     concat (take 6 (milestone_lines clock)) \<and>
   fst (main exact_host bank_env clock (Inr bank_config)
     (fresh_world\<lparr>writable := (\<lambda>p. p \<noteq> ''Banks.db'')\<rparr>)) = Some DatabaseError \<and>
   log_file (snd (main exact_host bank_env clock (Inr bank_config)
     (fresh_world\<lparr>writable := (\<lambda>p. p \<noteq> ''Banks.db'')\<rparr>))) =
     concat (take 4 (milestone_lines clock))"
proof -
  let ?locked = "fresh_world\<lparr>writable := (\<lambda>p. p \<noteq> ''Banks.db'')\<rparr>"
  let ?run = "main exact_host bank_env clock (Inr bank_config) fresh_world"
  let ?other = "main exact_host bank_env clock (Inr other_config) fresh_world"
  let ?stopped = "main exact_host bank_env clock (Inr bank_config) ?locked"
  have run: "?run = (fst ?run, snd ?run)" "?other = (fst ?other, snd ?other)"
    "?stopped = (fst ?stopped, snd ?stopped)"
    by simp_all
  have ex: "extract_df exact_host bank_env (url bank_config) (table_attributes bank_config) =
      Inr bank_frame"
    "extract_df exact_host bank_env (url other_config) (table_attributes other_config) =
      Inr bank_frame"
    using bank_extract by (simp_all add: bank_config_def other_config_def)
  have tr: "transform exact_host bank_env bank_frame (csv_path bank_config) = Inr bank_result"
    "transform exact_host bank_env bank_frame (csv_path other_config) = Inr bank_result"
    using bank_transform by (simp_all add: bank_config_def other_config_def)
  have free: "writable fresh_world (output_path bank_config)"
    "writable fresh_world (db_name bank_config)"
    "writable fresh_world (output_path other_config)"
    "writable fresh_world (db_name other_config)"
    by (simp_all add: fresh_world_def)
  have locked: "writable ?locked (output_path bank_config)"
    "\<not> writable ?locked (db_name bank_config)"
    by (simp_all add: bank_config_def)
  have load: "to_sql_append exact_host bank_result
      (opened fresh_world (db_name bank_config) (table_name bank_config)) = Inr bank_result"
    "to_sql_append exact_host bank_result
      (opened fresh_world (db_name other_config) (table_name other_config)) = Inr bank_result"
    by (simp_all add: opened_def fresh_world_def to_sql_append_def bank_result_def columns_def)
  have answer: "read_sql exact_host query_statement
      ((opened fresh_world (db_name bank_config))(table_name bank_config \<mapsto> bank_result)) =
      Inr [(''AVG(MC_GBP_Billion)'', [Num (Some 80000)])]"
    by (simp add: opened_def fresh_world_def query_statement_def bank_config_def
        bank_result_def bank_avg)
  have no_table: "read_sql exact_host query_statement
      ((opened fresh_world (db_name other_config))(table_name other_config \<mapsto> bank_result)) =
      Inl DatabaseError"
    by (simp add: opened_def fresh_world_def query_statement_def bank_config_def
        other_config_def)
  have seven: "take 7 (milestone_lines clock) = milestone_lines clock"
    by (simp add: milestone_lines_def)
  have empty: "log_file fresh_world = []" "log_file ?locked = []"
    by (simp_all add: fresh_world_def)
  have "fst ?run = None \<and>
      log_file (snd ?run) = log_file fresh_world @ concat (take 7 (milestone_lines clock))"
    using driver_logs_seven_milestones [OF run(1)] ex(1) tr(1) free(1,2) load(1) answer
    by blast
  moreover have "fst ?other = Some DatabaseError \<and>
      log_file (snd ?other) = log_file fresh_world @ concat (take 6 (milestone_lines clock))"
    using driver_logs_seven_milestones [OF run(2)] ex(2) tr(2) free(3,4) load(2) no_table
    by blast
  moreover have "fst ?stopped = Some DatabaseError \<and>
      log_file (snd ?stopped) = log_file ?locked @ concat (take 4 (milestone_lines clock))"
    using driver_logs_seven_milestones [OF run(3)] ex(1) tr(1) locked
    by blast
  ultimately show ?thesis
    by (simp only: empty seven append_Nil simp_thms)
qed

text \<open>
  Claim C3 as stated counts eight messages. The run of the scenario completes and its log
  has seven lines.
\<close>

theorem eight_milestones_counterexample:
  "fst (main exact_host bank_env clock (Inr bank_config) fresh_world) = None \<and>
   line_count (log_file (snd (main exact_host bank_env clock (Inr bank_config) fresh_world))) = 7 \<and>
   line_count (log_file (snd (main exact_host bank_env clock (Inr bank_config) fresh_world))) \<noteq> 8"
proof -
  let ?run = "main exact_host bank_env clock (Inr bank_config) fresh_world"
  have finished: "fst ?run = None"
    using bank_run [of clock "''Largest_banks''"] by (simp add: bank_config_table)
  then have run: "?run = (None, snd ?run)"
    by (simp add: prod_eq_iff)
  from main_log [OF run] have "log_file (snd ?run) =
      log_file fresh_world @ concat (take 7 (milestone_lines clock))"
    by auto
  then have "log_file (snd ?run) = concat (milestone_lines clock)"
    by (simp add: fresh_world_def milestone_lines_def)
  then show ?thesis
    using finished clock_lines by simp
qed

text \<open>
  Claim C2. The statement of line 203 names the table \<^verbatim>\<open>Largest_banks\<close>, whatever table the
  configuration names. With the scenario's page and rates on an empty database, a
  configuration that names the table \<^verbatim>\<open>Banks\<close> loads the row into \<^verbatim>\<open>Banks\<close> and then queries
  \<^verbatim>\<open>Largest_banks\<close>, which does not exist: the run ends with an error of the database after
  printing the statement, and no result is printed. Only when the configuration names
  \<^verbatim>\<open>Largest_banks\<close> is the average taken over the table just loaded, and 80000 printed.
\<close>

theorem query_names_fixed_table:
  "fst (main exact_host bank_env clock (Inr other_config) fresh_world) = Some DatabaseError \<and>
   stdout (snd (main exact_host bank_env clock (Inr other_config) fresh_world)) =
     [PFrame bank_frame, PFrame bank_result,
      PText ''SELECT AVG(MC_GBP_Billion) FROM Largest_banks''] \<and>
   table_of (snd (main exact_host bank_env clock (Inr other_config) fresh_world))
     ''Banks.db'' ''Banks'' = Some bank_result \<and>
   table_of (snd (main exact_host bank_env clock (Inr other_config) fresh_world))
     ''Banks.db'' ''Largest_banks'' = None \<and>
   fst (main exact_host bank_env clock (Inr bank_config) fresh_world) = None \<and>
   stdout (snd (main exact_host bank_env clock (Inr bank_config) fresh_world)) =
     [PFrame bank_frame, PFrame bank_result,
      PText ''SELECT AVG(MC_GBP_Billion) FROM Largest_banks'',
      PFrame [(''AVG(MC_GBP_Billion)'', [Num (Some 80000)])]]"
  using bank_run [of clock "''Banks''"] bank_run [of clock "''Largest_banks''"]
  by (simp add: other_config_def bank_config_table)

text \<open>
  Claim C1. The rows are stored under the fixed keys \<^verbatim>\<open>'Name'\<close> and \<^verbatim>\<open>'MC_USD_Billion'\<close> of
  lines 64 and 65. Asked for the columns Bank and Cap on the page of the scenario,
  \<open>extract\<close> returns a frame of four columns: Bank and Cap, which hold nan, and Name and
  MC_USD_Billion, which hold the data.
\<close>

theorem extract_keeps_fixed_names:
  "extract_df exact_host bank_env ''http://banks.example'' [''Bank'', ''Cap''] =
     Inr [(''Bank'', [Num None]), (''Cap'', [Num None]),
          (''Name'', [Str ''Bank A'']), (''MC_USD_Billion'', [Str ''100,000\<newline>''])] \<and>
   extract_df exact_host bank_env ''http://banks.example'' [''Bank'', ''Cap''] \<noteq>
     Inr [(''Bank'', [Str ''Bank A'']), (''Cap'', [Str ''100,000\<newline>''])]"
  by (simp add: extract_df_def page_defs extract_defs exact_host_def)

end
